theory Spec2Isabelle
  imports Main "HOL-Library.AList"
begin

section \<open>Text helpers of the host language\<close>

text \<open>
  Strings are lists of 8-bit characters. A template literal \<open>${n}\<close> renders a
  non-negative integer in decimal; \<open>String.prototype.trim\<close> removes white space from
  both ends (the white-space characters below are those with a code below 256).
\<close>

definition digit_char :: "nat \<Rightarrow> char" where
  "digit_char n = ''0123456789'' ! n"

fun number_text :: "nat \<Rightarrow> string" where
  "number_text n =
     (if n < 10 then [digit_char n]
      else number_text (n div 10) @ [digit_char (n mod 10)])"

declare number_text.simps [simp del]

definition is_space :: "char \<Rightarrow> bool" where
  "is_space ch \<longleftrightarrow>
     ch \<in> set [CHR 0x09, CHR 0x0A, CHR 0x0B, CHR 0x0C, CHR 0x0D, CHR 0x20, CHR 0xA0]"

definition trim :: "string \<Rightarrow> string" where
  "trim s = rev (dropWhile is_space (rev (dropWhile is_space s)))"

section \<open>server.ts: protocol types\<close>

text \<open>The union type \<open>stageName\<close> and the string literal each member stands for.\<close>

datatype stageName = Received | Translating | Modifying | Validating | Repair | Idle

fun stage_literal :: "stageName \<Rightarrow> string" where
  "stage_literal Received = ''received''"
| "stage_literal Translating = ''translating''"
| "stage_literal Modifying = ''modifying''"
| "stage_literal Validating = ''validating''"
| "stage_literal Repair = ''repair''"
| "stage_literal Idle = ''idle''"

text \<open>TypeChat's \<open>Result<T>\<close>: \<open>{success: true, data}\<close> or \<open>{success: false, message}\<close>.\<close>

datatype 'a Result = Success 'a | Error string

text \<open>
  Client messages, as the cast \<open>JSON.parse(rawStr) as ClientMessage\<close> types them. The
  handler reads \<open>msg.prompt ?? ""\<close> and tests \<open>!previousJson\<close>, so both fields may be
  absent; \<open>ClientOther\<close> is any other value of \<open>type\<close>. \<open>NotJson\<close> is a payload on which
  \<open>JSON.parse\<close> throws.
\<close>

datatype 'a ClientMessage =
    ClientPrompt "string option"
  | ClientModify "string option" "'a option"
  | ClientCancel
  | ClientPing
  | ClientOther string

datatype 'a RawData = NotJson | Json "'a ClientMessage"

text \<open>
  Server events. \<open>EvStatus stage message attempt\<close>, \<open>EvResult data is_modify\<close>,
  \<open>EvResultPartial data message is_modify\<close>; an optional field that is absent is \<open>None\<close>.
\<close>

datatype 'a ServerEvent =
    EvStatus stageName string "nat option"
  | EvResult 'a "bool option"
  | EvResultPartial 'a string "bool option"
  | EvError string
  | EvDone bool
  | EvPong nat

text \<open>
  \<open>SocketState\<close>; \<open>heartbeat\<close> tells whether the interval timer is still installed.
\<close>

record SocketState =
  busy :: bool
  canceled :: bool
  jobName :: stageName
  lastJobId :: nat
  heartbeat :: bool

section \<open>server.ts: one connection and its suspended routines\<close>

text \<open>
  The routines are \<open>async\<close>: each runs until its next \<open>await\<close>, and the event loop runs
  one callback at a time. A routine is therefore modelled by one function per stretch of
  code between two \<open>await\<close>s, and a suspended routine by a \<open>Task\<close> that records where it
  waits and the local variables it still needs.

  \<open>AtRepair attempt current\<close>: \<open>validateAndRepair\<close> waits for
  \<open>withTimeout(translator.repair(current, validation.message))\<close>.
  \<open>AtSleep attempt current\<close>: it waits for \<open>sleep(500)\<close>, \<open>current\<close> already replaced.
\<close>

datatype 'a VRPoint = AtRepair nat 'a | AtSleep nat 'a

text \<open>
  \<open>AwaitGen is_modify\<close>: \<open>runJob\<close> (\<open>runModificationJob\<close> when the flag is set) waits for
  \<open>withTimeout(translator.translate(..))\<close> (\<open>modify\<close>).
  \<open>AwaitVR is_modify p\<close>: it waits for \<open>withTimeout(validateAndRepair(..))\<close>, which is
  itself suspended at \<open>p\<close>.
  \<open>DetachedVR is_modify p\<close>: the 180 s timer won that race; the job routine has finished
  and \<open>validateAndRepair\<close> goes on alone, suspended at \<open>p\<close>.
\<close>

datatype 'a Task =
    AwaitGen bool
  | AwaitVR bool "'a VRPoint"
  | DetachedVR bool "'a VRPoint"

text \<open>How an awaited promise settles: with a value, or with a thrown error's message.\<close>

datatype 'a Settled = Fulfilled 'a | Rejected string

text \<open>Calls made to the collaborators (the translator and its validator).\<close>

datatype 'a Call =
    TranslateCall string
  | ModifyCall 'a string
  | RepairCall 'a string
  | ValidateCall 'a

text \<open>
  Who performed a \<open>send\<close>: the message handlers and the heartbeat (\<open>Session\<close>), or the
  routines of the job with the given id. The tag is bookkeeping for stating properties
  "of a job"; the text on the wire is \<open>map snd (sent c)\<close>.
\<close>

datatype origin = Session | Job nat

record 'a Conn =
  state :: SocketState
  readyOpen :: bool
  sent :: "(origin \<times> 'a ServerEvent) list"
  calls :: "(nat \<times> 'a Call) list"
  pending :: "(nat \<times> 'a Task) list"

definition send :: "origin \<Rightarrow> 'a ServerEvent \<Rightarrow> 'a Conn \<Rightarrow> 'a Conn" where
  "send who payload c =
     (if readyOpen c then c\<lparr>sent := sent c @ [(who, payload)]\<rparr> else c)"

definition sendStatus ::
  "origin \<Rightarrow> stageName \<Rightarrow> string \<Rightarrow> nat option \<Rightarrow> 'a Conn \<Rightarrow> 'a Conn" where
  "sendStatus who stage message data c =
     (let c1 = send who (EvStatus stage message data) c
      in c1\<lparr>state := (state c1)\<lparr>jobName := stage\<rparr>\<rparr>)"

definition isStale :: "SocketState \<Rightarrow> nat \<Rightarrow> bool" where
  "isStale s jobId \<longleftrightarrow> canceled s \<or> jobId \<noteq> lastJobId s"

definition setBusy :: "bool \<Rightarrow> 'a Conn \<Rightarrow> 'a Conn" where
  "setBusy b c = c\<lparr>state := (state c)\<lparr>busy := b\<rparr>\<rparr>"

definition sendError :: "nat \<Rightarrow> string \<Rightarrow> 'a Conn \<Rightarrow> 'a Conn" where
  "sendError jobId message c =
     send (Job jobId) (EvDone False) (send (Job jobId) (EvError message) c)"

definition call :: "nat \<Rightarrow> 'a Call \<Rightarrow> 'a Conn \<Rightarrow> 'a Conn" where
  "call jobId what c = c\<lparr>calls := calls c @ [(jobId, what)]\<rparr>"

definition suspend :: "nat \<Rightarrow> 'a Task \<Rightarrow> 'a Conn \<Rightarrow> 'a Conn" where
  "suspend jobId t c = c\<lparr>pending := (jobId, t) # AList.delete jobId (pending c)\<rparr>"

definition finish :: "nat \<Rightarrow> 'a Conn \<Rightarrow> 'a Conn" where
  "finish jobId c = c\<lparr>pending := AList.delete jobId (pending c)\<rparr>"

subsection \<open>validateAndRepair\<close>

definition maxAttempts :: nat where
  "maxAttempts = 3"

text \<open>The value returned after the \<open>for\<close> loop, reached by \<open>break\<close> or by exhaustion.\<close>

definition loop_exit :: "'a Result" where
  "loop_exit = Error ''Validation and repair loop exited unexpectedly.''"

datatype 'a VRStep = Returned "'a Result" | Suspended "'a VRPoint"

text \<open>
  One pass through the loop from its head (the test \<open>attempt <= maxAttempts\<close>) to the
  \<open>await\<close> of the repair call, or to a \<open>return\<close> or \<open>break\<close>. \<open>validate\<close> is
  \<open>translator.json_is_schema_valid\<close>, that is the validator of the TypeChat library.
\<close>

definition vr_attempt ::
  "('a \<Rightarrow> 'a Result) \<Rightarrow> nat \<Rightarrow> bool \<Rightarrow> nat \<Rightarrow> 'a \<Rightarrow> 'a Conn \<Rightarrow> 'a Conn \<times> 'a VRStep" where
  "vr_attempt validate jobId is_modify attempt current c =
     (if \<not> attempt \<le> maxAttempts then (c, Returned loop_exit)
      else if isStale (state c) jobId then
        (c, Returned (Error ''Job stale or canceled during validation.''))
      else
        let c1 = sendStatus (Job jobId) Validating
                   (''Validating schema (attempt '' @ number_text attempt @ '')'') None c;
            c2 = call jobId (ValidateCall current) c1
        in case validate current of
             Success _ \<Rightarrow> (c2, Returned (Success current))
           | Error message \<Rightarrow>
               if attempt = maxAttempts then
                 (send (Job jobId)
                    (EvResultPartial current
                       (''Max repair attempts reached. Last error: '' @ message)
                       (Some is_modify)) c2,
                  Returned loop_exit)
               else
                 let c3 = sendStatus (Job jobId) Repair
                            (''Repairing ('' @ number_text attempt @ ''/3): '' @ message)
                            None c2;
                     c4 = call jobId (RepairCall current message) c3
                 in (c4, Suspended (AtRepair attempt current)))"

text \<open>The call itself: \<open>current = json\<close>, \<open>attempt = 1\<close>, then the loop.\<close>

definition validateAndRepair ::
  "('a \<Rightarrow> 'a Result) \<Rightarrow> nat \<Rightarrow> 'a \<Rightarrow> bool \<Rightarrow> 'a Conn \<Rightarrow> 'a Conn \<times> 'a VRStep" where
  "validateAndRepair validate jobId json is_modify c =
     vr_attempt validate jobId is_modify 1 json c"

text \<open>
  After the repair call has settled: a failure \<open>Result\<close> and a thrown error both leave
  the loop by \<open>break\<close>; a success replaces \<open>current\<close> and waits in \<open>sleep(500)\<close>.
\<close>

definition vr_repaired ::
  "nat \<Rightarrow> bool \<Rightarrow> nat \<Rightarrow> 'a \<Rightarrow> 'a Result Settled \<Rightarrow> 'a Conn \<Rightarrow> 'a Conn \<times> 'a VRStep" where
  "vr_repaired jobId is_modify attempt current repair_result c =
     (case repair_result of
        Fulfilled (Error message) \<Rightarrow>
          (send (Job jobId)
             (EvResultPartial current
                (''Repair '' @ number_text attempt @ '' failed: '' @ message)
                (Some is_modify)) c,
           Returned loop_exit)
      | Fulfilled (Success data) \<Rightarrow> (c, Suspended (AtSleep attempt data))
      | Rejected message \<Rightarrow>
          (send (Job jobId)
             (EvError (''Repair '' @ number_text attempt @ '' threw: '' @ message)) c,
           Returned loop_exit))"

text \<open>After the back-off: \<open>attempt++\<close> and the loop head again.\<close>

definition vr_slept ::
  "('a \<Rightarrow> 'a Result) \<Rightarrow> nat \<Rightarrow> bool \<Rightarrow> nat \<Rightarrow> 'a \<Rightarrow> 'a Conn \<Rightarrow> 'a Conn \<times> 'a VRStep" where
  "vr_slept validate jobId is_modify attempt current c =
     vr_attempt validate jobId is_modify (attempt + 1) current c"

subsection \<open>runJob and runModificationJob\<close>

text \<open>The \<open>finally\<close> block, the same in both routines.\<close>

definition cleanup :: "nat \<Rightarrow> 'a Conn \<Rightarrow> 'a Conn" where
  "cleanup jobId c =
     (let c1 = setBusy False c;
          c2 = c1\<lparr>state := (state c1)\<lparr>jobName := Idle\<rparr>\<rparr>
      in send (Job jobId) (EvDone (\<not> canceled (state c2))) c2)"

text \<open>
  From the call to the first \<open>await\<close>. A \<open>return\<close> inside \<open>try\<close> runs the \<open>finally\<close>
  block; otherwise the routine is left suspended on the generation call.
\<close>

definition runJob :: "nat \<Rightarrow> string \<Rightarrow> 'a Conn \<Rightarrow> 'a Conn" where
  "runJob jobId prompt c =
     (if isStale (state c) jobId then cleanup jobId c
      else
        let c1 = setBusy True c;
            c2 = c1\<lparr>state := (state c1)\<lparr>jobName := Translating\<rparr>\<rparr>;
            c3 = sendStatus (Job jobId) Received ''Prompt received.'' None c2;
            c4 = sendStatus (Job jobId) Translating ''Starting translation to schema...''
                   None c3;
            c5 = call jobId (TranslateCall prompt) c4
        in suspend jobId (AwaitGen False) c5)"

definition runModificationJob :: "nat \<Rightarrow> string \<Rightarrow> 'a \<Rightarrow> 'a Conn \<Rightarrow> 'a Conn" where
  "runModificationJob jobId prompt previousJson c =
     (if isStale (state c) jobId then cleanup jobId c
      else
        let c1 = setBusy True c;
            c2 = c1\<lparr>state := (state c1)\<lparr>jobName := Modifying\<rparr>\<rparr>;
            c3 = sendStatus (Job jobId) Received ''Prompt received.'' None c2;
            c4 = sendStatus (Job jobId) Modifying ''Starting modification to schema...''
                   None c3;
            c5 = call jobId (ModifyCall previousJson prompt) c4
        in suspend jobId (AwaitGen True) c5)"

text \<open>
  After \<open>await withTimeout(validateAndRepair(..))\<close> has produced \<open>finalResult\<close>: the
  \<open>result\<close> event on success (flagged \<open>is_modify: true\<close> by \<open>runModificationJob\<close> only),
  then the \<open>finally\<close> block.
\<close>

definition job_validated :: "nat \<Rightarrow> bool \<Rightarrow> 'a Result \<Rightarrow> 'a Conn \<Rightarrow> 'a Conn" where
  "job_validated jobId is_modify finalResult c =
     cleanup jobId
       (case finalResult of
          Success data \<Rightarrow>
            send (Job jobId) (EvResult data (if is_modify then Some True else None)) c
        | Error _ \<Rightarrow> c)"

text \<open>
  After the generation call has settled. A rejection (a thrown error, or the timer of
  \<open>withTimeout\<close>) is rethrown with the routine's prefix and lands in \<open>catch\<close>. Otherwise
  the staleness check, the failure \<open>Result\<close>, and the call of \<open>validateAndRepair\<close>, which
  runs at once up to its first \<open>await\<close>: if it returns before any, the job goes on
  without a break, else the job is suspended on it.
\<close>

definition job_generated ::
  "('a \<Rightarrow> 'a Result) \<Rightarrow> nat \<Rightarrow> bool \<Rightarrow> 'a Result Settled \<Rightarrow> 'a Conn \<Rightarrow> 'a Conn" where
  "job_generated validate jobId is_modify translation c =
     (case translation of
        Rejected message \<Rightarrow>
          cleanup jobId
            (sendError jobId
               ((if is_modify then ''Modification failed: '' else ''Translation failed: '')
                  @ message) c)
      | Fulfilled translation_result \<Rightarrow>
          if isStale (state c) jobId then cleanup jobId c
          else
            (case translation_result of
               Error message \<Rightarrow> cleanup jobId (sendError jobId message c)
             | Success data \<Rightarrow>
                 (case validateAndRepair validate jobId data is_modify c of
                    (c1, Returned finalResult) \<Rightarrow> job_validated jobId is_modify finalResult c1
                  | (c1, Suspended p) \<Rightarrow> suspend jobId (AwaitVR is_modify p) c1)))"

text \<open>
  The timer of \<open>withTimeout(validateAndRepair(..), 180_000)\<close> fires first: the \<open>await\<close>
  throws, \<open>catch\<close> reports it and \<open>finally\<close> runs. Nothing stops \<open>validateAndRepair\<close>.
\<close>

definition job_deadline :: "nat \<Rightarrow> bool \<Rightarrow> 'a VRPoint \<Rightarrow> 'a Conn \<Rightarrow> 'a Conn" where
  "job_deadline jobId is_modify p c =
     suspend jobId (DetachedVR is_modify p)
       (cleanup jobId (sendError jobId ''Operation timed out'' c))"

text \<open>
  \<open>validateAndRepair\<close> has run up to \<open>r\<close>. When it returned, the job routine that awaits
  it (\<open>live\<close>) goes on; when it is suspended again, so is whoever awaits it.
\<close>

definition vr_progress ::
  "nat \<Rightarrow> bool \<Rightarrow> bool \<Rightarrow> 'a Conn \<times> 'a VRStep \<Rightarrow> 'a Conn" where
  "vr_progress jobId is_modify live r =
     (case r of
        (c1, Returned finalResult) \<Rightarrow>
          if live then job_validated jobId is_modify finalResult (finish jobId c1)
          else finish jobId c1
      | (c1, Suspended p) \<Rightarrow>
          suspend jobId (if live then AwaitVR is_modify p else DetachedVR is_modify p) c1)"

subsection \<open>The connection's callbacks\<close>

definition on_message :: "'a RawData \<Rightarrow> nat \<Rightarrow> 'a Conn \<Rightarrow> 'a Conn" where
  "on_message raw now c =
     (case raw of
        NotJson \<Rightarrow>
          send Session (EvError ''Design Server: Invalid JSON in message from client'') c
      | Json ClientPing \<Rightarrow> send Session (EvPong now) c
      | Json ClientCancel \<Rightarrow>
          if busy (state c) then
            sendStatus Session Idle ''Job canceled by client.'' None
              (c\<lparr>state := (state c)\<lparr>canceled := True\<rparr>\<rparr>)
          else sendStatus Session Idle ''No active job to cancel.'' None c
      | Json (ClientPrompt p) \<Rightarrow>
          let prompt = trim (case p of None \<Rightarrow> '''' | Some text \<Rightarrow> text) in
          if prompt = [] then
            send Session (EvDone False) (send Session (EvError ''Missing 'prompt'.'') c)
          else if busy (state c) then
            send Session (EvError ''Job already in progress on this connection.'') c
          else
            let jobId = lastJobId (state c) + 1;
                c1 = c\<lparr>state := (state c)\<lparr>lastJobId := jobId\<rparr>\<rparr>
            in runJob jobId prompt c1
      | Json (ClientModify p originalJson) \<Rightarrow>
          let prompt = trim (case p of None \<Rightarrow> '''' | Some text \<Rightarrow> text) in
          if prompt = [] then
            send Session (EvDone False) (send Session (EvError ''Missing 'prompt'.'') c)
          else if busy (state c) then
            send Session (EvError ''Job already in progress on this connection.'') c
          else
            (case originalJson of
               None \<Rightarrow>
                 send Session (EvDone False)
                   (send Session (EvError ''Missing 'originalJson'.'') c)
             | Some previousJson \<Rightarrow>
                 let jobId = lastJobId (state c) + 1;
                     c1 = c\<lparr>state := (state c)\<lparr>lastJobId := jobId\<rparr>\<rparr>
                 in runModificationJob jobId prompt previousJson c1)
      | Json (ClientOther _) \<Rightarrow> send Session (EvError ''Unknown message type.'') c)"

definition on_heartbeat :: "'a Conn \<Rightarrow> 'a Conn" where
  "on_heartbeat c =
     (if readyOpen c then send Session (EvStatus (jobName (state c)) ''...'' None) c
      else c)"

text \<open>The socket is closed when \<open>close\<close> is delivered.\<close>

definition on_close :: "'a Conn \<Rightarrow> 'a Conn" where
  "on_close c =
     c\<lparr>state := (state c)\<lparr>heartbeat := False, canceled := True\<rparr>, readyOpen := False\<rparr>"

definition on_error :: "'a Conn \<Rightarrow> 'a Conn" where
  "on_error c = c\<lparr>state := (state c)\<lparr>heartbeat := False, canceled := True\<rparr>\<rparr>"

subsection \<open>The event loop\<close>

text \<open>
  What the event loop can run next on a connection: a callback of the socket, the
  heartbeat, the socket leaving the \<open>OPEN\<close> state, or the continuation of a suspended
  routine. \<open>Message raw now\<close> carries the value \<open>Date.now()\<close> has then.
  \<open>GenSettled j r\<close> and \<open>RepairSettled j r\<close>: the promise \<open>withTimeout(..)\<close> that job \<open>j\<close>
  awaits settles with \<open>r\<close> (its timer firing is \<open>Rejected ''Operation timed out''\<close>).
  \<open>SleepDone j\<close>: the back-off of job \<open>j\<close> is over. \<open>Deadline j\<close>: the timer around
  \<open>validateAndRepair\<close> of job \<open>j\<close> fires while it is suspended.
\<close>

datatype 'a Label =
    Message "'a RawData" nat
  | Tick
  | Close
  | SocketError
  | NotOpen
  | GenSettled nat "'a Result Settled"
  | RepairSettled nat "'a Result Settled"
  | SleepDone nat
  | Deadline nat

text \<open>
  One turn of the event loop. A label that names a routine which is not suspended at
  that point cannot occur; the step then leaves the connection as it is.
\<close>

definition step :: "('a \<Rightarrow> 'a Result) \<Rightarrow> 'a Label \<Rightarrow> 'a Conn \<Rightarrow> 'a Conn" where
  "step validate l c =
     (case l of
        Message raw now \<Rightarrow> on_message raw now c
      | Tick \<Rightarrow> if heartbeat (state c) then on_heartbeat c else c
      | Close \<Rightarrow> on_close c
      | SocketError \<Rightarrow> on_error c
      | NotOpen \<Rightarrow> c\<lparr>readyOpen := False\<rparr>
      | GenSettled j r \<Rightarrow>
          (case map_of (pending c) j of
             Some (AwaitGen m) \<Rightarrow> job_generated validate j m r (finish j c)
           | _ \<Rightarrow> c)
      | RepairSettled j r \<Rightarrow>
          (case map_of (pending c) j of
             Some (AwaitVR m (AtRepair n current)) \<Rightarrow>
               vr_progress j m True (vr_repaired j m n current r c)
           | Some (DetachedVR m (AtRepair n current)) \<Rightarrow>
               vr_progress j m False (vr_repaired j m n current r c)
           | _ \<Rightarrow> c)
      | SleepDone j \<Rightarrow>
          (case map_of (pending c) j of
             Some (AwaitVR m (AtSleep n current)) \<Rightarrow>
               vr_progress j m True (vr_slept validate j m n current c)
           | Some (DetachedVR m (AtSleep n current)) \<Rightarrow>
               vr_progress j m False (vr_slept validate j m n current c)
           | _ \<Rightarrow> c)
      | Deadline j \<Rightarrow>
          (case map_of (pending c) j of
             Some (AwaitVR m p) \<Rightarrow> job_deadline j m p c
           | _ \<Rightarrow> c))"

fun run :: "('a \<Rightarrow> 'a Result) \<Rightarrow> 'a Label list \<Rightarrow> 'a Conn \<Rightarrow> 'a Conn" where
  "run validate [] c = c"
| "run validate (l # ls) c = run validate ls (step validate l c)"

text \<open>The state a new connection starts with; the socket is open.\<close>

definition connection :: "'a Conn" where
  "connection =
     \<lparr>state = \<lparr>busy = False, canceled = False, jobName = Idle, lastJobId = 0,
                heartbeat = True\<rparr>,
      readyOpen = True, sent = [], calls = [], pending = []\<rparr>"

text \<open>What a job has sent, and the calls it has made, in order.\<close>

definition job_events :: "nat \<Rightarrow> 'a Conn \<Rightarrow> 'a ServerEvent list" where
  "job_events j c = map snd (filter (\<lambda>e. fst e = Job j) (sent c))"

definition job_calls :: "nat \<Rightarrow> 'a Conn \<Rightarrow> 'a Call list" where
  "job_calls j c = map snd (filter (\<lambda>e. fst e = j) (calls c))"

section \<open>mythographer.ts\<close>

text \<open>
  JSON values as \<open>JSON.parse\<close> builds them, over any type \<open>'n\<close> of numbers. \<open>JEmpty\<close> is
  the empty slot that \<open>delete\<close> leaves in an array; \<open>JSON.parse\<close> never produces it.
\<close>

datatype 'n json =
    JNull
  | JBool bool
  | JNumber 'n
  | JString string
  | JArray "'n json list"
  | JObject "(string \<times> 'n json) list"
  | JEmpty

text \<open>
  \<open>stripNulls(obj)\<close> works in place; \<open>stripNulls obj\<close> is the value \<open>obj\<close> holds afterwards.
  A \<open>null\<close> entry of \<open>obj\<close> is deleted (from an array that leaves an empty slot). An
  entry that is an array with a \<open>null\<close> in it is replaced by the filtered copy before the
  recursive call, which then works on the old array: the copy shares its elements, so
  each is stripped in place (\<open>stripNulls\<close> again), but a replacement made inside the old
  array is lost. \<open>stripNulls_entry value\<close> is what the entry of \<open>obj\<close> holds afterwards.
\<close>

fun stripNulls :: "'n json \<Rightarrow> 'n json"
  and stripNulls_entry :: "'n json \<Rightarrow> 'n json" where
  "stripNulls (JObject props) =
     JObject (map (\<lambda>(k, value). (k, stripNulls_entry value))
                (filter (\<lambda>(k, value). value \<noteq> JNull) props))"
| "stripNulls (JArray items) =
     JArray (map (\<lambda>value. if value = JNull then JEmpty else stripNulls_entry value) items)"
| "stripNulls JNull = JNull"
| "stripNulls (JBool b) = JBool b"
| "stripNulls (JNumber n) = JNumber n"
| "stripNulls (JString s) = JString s"
| "stripNulls JEmpty = JEmpty"
| "stripNulls_entry (JArray items) =
     (if JNull \<in> set items then JArray (map stripNulls (filter (\<lambda>x. x \<noteq> JNull) items))
      else stripNulls (JArray items))"
| "stripNulls_entry (JObject props) = stripNulls (JObject props)"
| "stripNulls_entry JNull = JNull"
| "stripNulls_entry (JBool b) = JBool b"
| "stripNulls_entry (JNumber n) = JNumber n"
| "stripNulls_entry (JString s) = JString s"
| "stripNulls_entry JEmpty = JEmpty"

text \<open>
  \<open>String.prototype.indexOf\<close> and \<open>lastIndexOf\<close> for a one-character search string (the
  index of the first, of the last occurrence, or \<open>-1\<close>), and \<open>slice(start, end)\<close>, where a
  negative index counts from the end and both are clamped to the string.
\<close>

fun indexOf :: "char \<Rightarrow> string \<Rightarrow> int" where
  "indexOf ch [] = - 1"
| "indexOf ch (x # xs) =
     (if x = ch then 0 else (let i = indexOf ch xs in if i < 0 then - 1 else i + 1))"

fun lastIndexOf :: "char \<Rightarrow> string \<Rightarrow> int" where
  "lastIndexOf ch [] = - 1"
| "lastIndexOf ch (x # xs) =
     (let i = lastIndexOf ch xs in if 0 \<le> i then i + 1 else if x = ch then 0 else - 1)"

definition slice :: "string \<Rightarrow> int \<Rightarrow> int \<Rightarrow> string" where
  "slice s start end =
     (let n = int (length s);
          from = (if start < 0 then max (n + start) 0 else min start n);
          to = (if end < 0 then max (n + end) 0 else min end n)
      in take (nat (to - from)) (drop (nat from) s))"

text \<open>
  What \<open>JSON.parse\<close> does with a text: it returns a value, or throws a \<open>SyntaxError\<close>
  with a message; \<open>OtherThrow\<close> is any other thrown value.
\<close>

datatype 'v Parsed = Value 'v | SyntaxError string | OtherThrow

datatype role = System | User | Assistant

datatype PromptSection = PromptSection role string

datatype Preamble = NoPreamble | PreambleText string | PreambleSections "PromptSection list"

text \<open>
  The validator (\<open>TypeChatJsonValidator\<close>) and the language model are collaborators: the
  validator is a record of what its three methods return, the model a function from the
  prompt to the way \<open>model.complete(prompt)\<close> settles.
\<close>

record 'v Validator =
  getSchemaText :: string
  getTypeName :: string
  validate :: "'v \<Rightarrow> 'v Result"

record 'v Mythographer =
  model :: "PromptSection list \<Rightarrow> string Result Settled"
  validator :: "'v Validator"
  stripNullsFlag :: bool


definition dq :: string where
  "dq = [CHR 0x22]"

definition nl :: string where
  "nl = [CHR 0x0A]"

definition fence :: string where
  "fence = [CHR 0x60, CHR 0x60, CHR 0x60]"



definition createRepairPrompt :: "'v Mythographer \<Rightarrow> string \<Rightarrow> string \<Rightarrow> string" where
  "createRepairPrompt tr previousJSON validationError =
     ''You are a service that modifies JSON objects of type '' @ dq
       @ getTypeName (validator tr) @ dq
       @ '' according to the following TypeScript definitions:'' @ nl
     @ fence @ nl @ getSchemaText (validator tr) @ fence @ nl
     @ ''The following is a JSON object:'' @ nl
     @ dq @ dq @ dq @ nl @ previousJSON @ nl @ dq @ dq @ dq @ nl
     @ ''The JSON object is invalid for the following reason:'' @ nl
     @ dq @ dq @ dq @ nl @ validationError @ nl @ dq @ dq @ dq @ nl
     @ ''The following is a revised JSON object with 2 spaces of indentation and no properties with the value undefined:'' @ nl"

text \<open>
  \<open>parse\<close> is \<open>JSON.parse\<close>. The catch clause turns every throw into an error \<open>Result\<close>.
\<close>

definition parse_json_response ::
  "(string \<Rightarrow> 'n json Parsed) \<Rightarrow> 'n json Mythographer \<Rightarrow> string \<Rightarrow> 'n json Result" where
  "parse_json_response parse tr responseText =
     (let startIndex = indexOf (CHR ''{'') responseText;
          endIndex = lastIndexOf (CHR ''}'') responseText
      in if \<not> (0 \<le> startIndex \<and> startIndex < endIndex) then
           Error (''Response is not JSON:'' @ nl @ responseText)
         else
           let jsonText = slice responseText startIndex (endIndex + 1) in
           case parse jsonText of
             SyntaxError message \<Rightarrow> Error message
           | OtherThrow \<Rightarrow> Error ''JSON parse error''
           | Value jsonObject \<Rightarrow>
               Success (if stripNullsFlag tr then stripNulls jsonObject else jsonObject))"

definition json_is_schema_valid :: "'v Mythographer \<Rightarrow> 'v \<Rightarrow> 'v Result" where
  "json_is_schema_valid tr jsonObject = validate (validator tr) jsonObject"

definition preamble_sections :: "Preamble \<Rightarrow> PromptSection list" where
  "preamble_sections promptPreamble =
     (case promptPreamble of
        PreambleText text \<Rightarrow> [PromptSection User text]
      | PreambleSections sections \<Rightarrow> sections
      | NoPreamble \<Rightarrow> [])"



definition repair ::
  "(string \<Rightarrow> 'n json Parsed) \<Rightarrow> ('n json \<Rightarrow> string) \<Rightarrow> 'n json Mythographer
     \<Rightarrow> 'n json \<Rightarrow> string \<Rightarrow> Preamble \<Rightarrow> 'n json Result Settled" where
  "repair parse stringify tr previousJSON validationError promptPreamble =
     (let prevJsonStr = stringify previousJSON;
          preamble = preamble_sections promptPreamble;
          prompt = preamble
            @ [PromptSection User (createRepairPrompt tr prevJsonStr validationError)]
      in case model tr prompt of
           Rejected message \<Rightarrow> Rejected message
         | Fulfilled (Error message) \<Rightarrow> Fulfilled (Error message)
         | Fulfilled (Success responseText) \<Rightarrow>
             Fulfilled (parse_json_response parse tr responseText))"

section \<open>Concrete validators and connections\<close>

text \<open>
  Candidates are natural numbers here. \<open>rejects_zero\<close> is a validator that rejects the
  candidate \<open>0\<close> only, \<open>rejects_all\<close> one that rejects every candidate.
\<close>

definition rejects_zero :: "nat \<Rightarrow> nat Result" where
  "rejects_zero x = (if x = 0 then Error ''bad'' else Success x)"

definition rejects_all :: "nat \<Rightarrow> nat Result" where
  "rejects_all x = Error ''bad''"

text \<open>A connection on which job 1 has been started by a prompt and awaits the translation.\<close>

definition translating_conn :: "nat Conn" where
  "translating_conn =
     \<lparr>state = \<lparr>busy = True, canceled = False, jobName = Translating, lastJobId = 1,
                heartbeat = True\<rparr>,
      readyOpen = True,
      sent = [(Job 1, EvStatus Received ''Prompt received.'' None),
              (Job 1, EvStatus Translating ''Starting translation to schema...'' None)],
      calls = [(1, TranslateCall ''an island'')],
      pending = [(1, AwaitGen False)]\<rparr>"

text \<open>The same connection after the client has sent \<open>cancel\<close>.\<close>

definition canceled_conn :: "nat Conn" where
  "canceled_conn =
     \<lparr>state = \<lparr>busy = True, canceled = True, jobName = Idle, lastJobId = 1,
                heartbeat = True\<rparr>,
      readyOpen = True,
      sent = [(Job 1, EvStatus Received ''Prompt received.'' None),
              (Job 1, EvStatus Translating ''Starting translation to schema...'' None),
              (Session, EvStatus Idle ''Job canceled by client.'' None)],
      calls = [(1, TranslateCall ''an island'')],
      pending = [(1, AwaitGen False)]\<rparr>"

section \<open>Following one job through a run\<close>

text \<open>
  The turns of the event loop that continue job \<open>j\<close> after one of its own \<open>await\<close>s: the
  generation call, a repair call or the back-off of that job settling. Everything else
  (client messages, the heartbeat, the socket closing, the job's own 180 s timer, the
  routines of other jobs) is not.
\<close>

fun resumes :: "nat \<Rightarrow> 'a Label \<Rightarrow> bool" where
  "resumes j (GenSettled k r) = (k = j)"
| "resumes j (RepairSettled k r) = (k = j)"
| "resumes j (SleepDone k) = (k = j)"
| "resumes j _ = False"

text \<open>
  The events that report progress or an outcome: \<open>status\<close>, \<open>result\<close> and
  \<open>result_partial\<close>, that is all events but \<open>error\<close>, \<open>done\<close> and \<open>pong\<close>.
\<close>

fun is_progress :: "'a ServerEvent \<Rightarrow> bool" where
  "is_progress (EvStatus stage message attempt) = True"
| "is_progress (EvResult data is_modify) = True"
| "is_progress (EvResultPartial data message is_modify) = True"
| "is_progress (EvError message) = False"
| "is_progress (EvDone ok) = False"
| "is_progress (EvPong t) = False"

text \<open>
  All that the routines of job \<open>j\<close> read of a connection, and all they have written:
  the socket state, whether the socket is open, where the job is suspended, and what
  it has sent and called so far.
\<close>

definition job_view ::
  "nat \<Rightarrow> 'a Conn \<Rightarrow> SocketState \<times> bool \<times> 'a Task option \<times> 'a ServerEvent list \<times> 'a Call list" where
  "job_view j c = (state c, readyOpen c, map_of (pending c) j, job_events j c, job_calls j c)"

section \<open>A concrete translator\<close>




section \<open>What each operation does to the fields of a connection\<close>

lemma send_fields [simp]:
  "state (send who e c) = state c"
  "readyOpen (send who e c) = readyOpen c"
  "calls (send who e c) = calls c"
  "pending (send who e c) = pending c"
  "sent (send who e c) = sent c @ (if readyOpen c then [(who, e)] else [])"
  by (simp_all add: send_def)

lemma sendStatus_fields [simp]:
  "state (sendStatus who stage text d c) = (state c)\<lparr>jobName := stage\<rparr>"
  "readyOpen (sendStatus who stage text d c) = readyOpen c"
  "calls (sendStatus who stage text d c) = calls c"
  "pending (sendStatus who stage text d c) = pending c"
  "sent (sendStatus who stage text d c) =
     sent c @ (if readyOpen c then [(who, EvStatus stage text d)] else [])"
  by (simp_all add: sendStatus_def Let_def)

lemma call_fields [simp]:
  "state (call j w c) = state c"
  "readyOpen (call j w c) = readyOpen c"
  "calls (call j w c) = calls c @ [(j, w)]"
  "pending (call j w c) = pending c"
  "sent (call j w c) = sent c"
  by (simp_all add: call_def)

lemma suspend_fields [simp]:
  "state (suspend j t c) = state c"
  "readyOpen (suspend j t c) = readyOpen c"
  "calls (suspend j t c) = calls c"
  "pending (suspend j t c) = (j, t) # AList.delete j (pending c)"
  "sent (suspend j t c) = sent c"
  by (simp_all add: suspend_def)

lemma finish_fields [simp]:
  "state (finish j c) = state c"
  "readyOpen (finish j c) = readyOpen c"
  "calls (finish j c) = calls c"
  "pending (finish j c) = AList.delete j (pending c)"
  "sent (finish j c) = sent c"
  by (simp_all add: finish_def)

lemma cleanup_fields [simp]:
  "state (cleanup j c) = (state c)\<lparr>busy := False, jobName := Idle\<rparr>"
  "readyOpen (cleanup j c) = readyOpen c"
  "calls (cleanup j c) = calls c"
  "pending (cleanup j c) = pending c"
  "sent (cleanup j c) =
     sent c @ (if readyOpen c then [(Job j, EvDone (\<not> canceled (state c)))] else [])"
  by (simp_all add: cleanup_def setBusy_def Let_def)

lemma sendError_fields [simp]:
  "state (sendError j text c) = state c"
  "readyOpen (sendError j text c) = readyOpen c"
  "calls (sendError j text c) = calls c"
  "pending (sendError j text c) = pending c"
  "sent (sendError j text c) =
     sent c @ (if readyOpen c then [(Job j, EvError text), (Job j, EvDone False)] else [])"
  by (simp_all add: sendError_def)

lemma number_text_small [simp]:
  "number_text (Suc 0) = ''1''" "number_text 1 = ''1''"
  "number_text 2 = ''2''" "number_text 3 = ''3''"
  "number_text (Suc (Suc 0)) = ''2''" "number_text (Suc (Suc (Suc 0))) = ''3''"
  by (simp_all add: number_text.simps digit_char_def)

lemma map_of_delete_task [simp]:
  "map_of (AList.delete k al) k' = (if k' = k then None else map_of al k')"
  by (simp add: delete_conv')

lemma job_events_ops [simp]:
  "job_events j (send who e c) =
     job_events j c @ (if readyOpen c \<and> who = Job j then [e] else [])"
  "job_events j (sendStatus who stage text d c) =
     job_events j c @ (if readyOpen c \<and> who = Job j then [EvStatus stage text d] else [])"
  "job_events j (call k w c) = job_events j c"
  "job_events j (suspend k t c) = job_events j c"
  "job_events j (finish k c) = job_events j c"
  "job_events j (cleanup k c) =
     job_events j c @ (if readyOpen c \<and> k = j then [EvDone (\<not> canceled (state c))] else [])"
  "job_events j (sendError k text c) =
     job_events j c @ (if readyOpen c \<and> k = j then [EvError text, EvDone False] else [])"
  "job_events j (c\<lparr>state := s\<rparr>) = job_events j c"
  "job_events j (c\<lparr>readyOpen := b\<rparr>) = job_events j c"
  by (simp_all add: job_events_def)

lemma job_calls_ops [simp]:
  "job_calls j (send who e c) = job_calls j c"
  "job_calls j (sendStatus who stage text d c) = job_calls j c"
  "job_calls j (call k w c) = job_calls j c @ (if k = j then [w] else [])"
  "job_calls j (suspend k t c) = job_calls j c"
  "job_calls j (finish k c) = job_calls j c"
  "job_calls j (cleanup k c) = job_calls j c"
  "job_calls j (sendError k text c) = job_calls j c"
  "job_calls j (c\<lparr>state := s\<rparr>) = job_calls j c"
  "job_calls j (c\<lparr>readyOpen := b\<rparr>) = job_calls j c"
  by (simp_all add: job_calls_def)

lemma run_append: "run check (xs @ ys) c = run check ys (run check xs c)"
  by (induction xs arbitrary: c) simp_all

lemmas run_defs =
  step_def on_message_def on_heartbeat_def on_close_def on_error_def
  runJob_def runModificationJob_def job_generated_def job_validated_def job_deadline_def
  vr_progress_def validateAndRepair_def vr_attempt_def vr_repaired_def vr_slept_def
  cleanup_def sendError_def sendStatus_def send_def call_def suspend_def finish_def
  setBusy_def isStale_def maxAttempts_def loop_exit_def trim_def is_space_def Let_def

text \<open>The two concrete connections are states the server reaches.\<close>

lemma translating_conn_reached:
  "run rejects_zero [Message (Json (ClientPrompt (Some ''an island''))) 0] connection =
     translating_conn"
  by (simp add: run_defs connection_def translating_conn_def)

lemma canceled_conn_reached:
  "run rejects_zero
     [Message (Json (ClientPrompt (Some ''an island''))) 0, Message (Json ClientCancel) 1]
     connection = canceled_conn"
  by (simp add: run_defs connection_def canceled_conn_def)

section \<open>Staleness\<close>

text \<open>
  C7. A job is stale exactly when \<open>canceled\<close> is set or its id differs from
  \<open>lastJobId\<close>, that is, it is authoritative exactly when its id equals \<open>lastJobId\<close> and
  \<open>canceled\<close> is clear. When \<open>validateAndRepair\<close> finds the job stale at the head of an
  attempt, it returns the failure "Job stale or canceled during validation." and leaves
  the connection as it was: nothing is sent, the validator is not consulted and no
  repair call is made.
\<close>

theorem stale_attempt_aborts:
  "(isStale s jobId \<longleftrightarrow> canceled s \<or> jobId \<noteq> lastJobId s) \<and>
   (\<not> isStale s jobId \<longleftrightarrow> jobId = lastJobId s \<and> \<not> canceled s) \<and>
   (attempt \<le> maxAttempts \<and> isStale (state c) jobId \<longrightarrow>
      vr_attempt check jobId is_modify attempt current c =
        (c, Returned (Error ''Job stale or canceled during validation.'')))"
  by (auto simp: isStale_def vr_attempt_def)

theorem stale_attempt_aborts_witness:
  "(2::nat) \<le> maxAttempts \<and> isStale (state canceled_conn) 1 \<and>
   vr_attempt rejects_zero 1 False 2 5 canceled_conn =
     (canceled_conn, Returned (Error ''Job stale or canceled during validation.''))"
  using stale_attempt_aborts [of "state canceled_conn" 1 2 canceled_conn rejects_zero False 5]
  by (simp add: maxAttempts_def canceled_conn_def)

section \<open>Messages that start no job\<close>

text \<open>
  C9. A \<open>prompt\<close> message whose prompt trims to the empty string is answered, on an open
  socket, by the error "Missing 'prompt'." and then \<open>done\<close> with \<open>ok\<close> false. Nothing
  else changes: \<open>lastJobId\<close> keeps its value, no routine is started, no call is made.
\<close>

theorem blank_prompt_rejected:
  assumes "trim (case p of None \<Rightarrow> '''' | Some text \<Rightarrow> text) = []" and "readyOpen c"
  shows "step check (Message (Json (ClientPrompt p)) now) c =
           c\<lparr>sent := sent c @
                [(Session, EvError ''Missing 'prompt'.''), (Session, EvDone False)]\<rparr>"
  using assms by (simp add: step_def on_message_def send_def)

theorem blank_prompt_rejected_witness:
  "trim (case Some ''  '' of None \<Rightarrow> '''' | Some text \<Rightarrow> text) = [] \<and>
   readyOpen (connection :: nat Conn) \<and>
   step rejects_zero (Message (Json (ClientPrompt (Some ''  ''))) 0) connection =
     connection\<lparr>sent := [(Session, EvError ''Missing 'prompt'.''), (Session, EvDone False)]\<rparr>"
  using blank_prompt_rejected [of "Some ''  ''" "connection :: nat Conn" rejects_zero 0]
  by (simp add: trim_def is_space_def connection_def)

text \<open>
  C8, as the code has it. While \<open>busy\<close> is set, a \<open>prompt\<close> or \<open>modify\<close> message changes
  nothing but what is sent: \<open>lastJobId\<close>, \<open>busy\<close>, \<open>canceled\<close> and the stage keep their
  values, and no routine is started. A prompt that trims to a non-empty string is
  answered by the single error "Job already in progress on this connection."; the test
  for an empty prompt comes first, and answers with its error and \<open>done\<close>.
\<close>

theorem busy_rejects_job:
  assumes "busy (state c)"
    and "msg = ClientPrompt p \<or> msg = ClientModify p originalJson"
  shows "step check (Message (Json msg) now) c =
           c\<lparr>sent := sent c @
              (if \<not> readyOpen c then []
               else if trim (case p of None \<Rightarrow> '''' | Some text \<Rightarrow> text) = [] then
                 [(Session, EvError ''Missing 'prompt'.''), (Session, EvDone False)]
               else [(Session, EvError ''Job already in progress on this connection.'')])\<rparr>"
  using assms by (auto simp: step_def on_message_def send_def)

theorem busy_rejects_job_witness:
  "busy (state translating_conn) \<and>
   step rejects_zero (Message (Json (ClientModify (Some ''more fog'') (Some 4))) 0)
     translating_conn =
     translating_conn\<lparr>sent := sent translating_conn @
        [(Session, EvError ''Job already in progress on this connection.'')]\<rparr>"
  using busy_rejects_job [of translating_conn "ClientModify (Some ''more fog'') (Some 4)"
      "Some ''more fog''" "Some 4" rejects_zero 0]
  by (simp add: trim_def is_space_def translating_conn_def)

text \<open>
  The claim as the specification words it ("a single error event and nothing else" for
  every such message) fails for a blank prompt: two events are sent.
\<close>

theorem busy_blank_prompt_counterexample:
  "busy (state translating_conn) \<and>
   sent (step rejects_zero (Message (Json (ClientPrompt (Some ''''))) 0) translating_conn) =
     sent translating_conn @
       [(Session, EvError ''Missing 'prompt'.''), (Session, EvDone False)]"
  by (simp add: step_def on_message_def send_def trim_def translating_conn_def)

section \<open>The terminal event\<close>

text \<open>
  C1. A prompt starts job 1 and the translation returns a failure \<open>Result\<close>: the job sends
  \<open>done\<close> twice, first with \<open>ok\<close> false (from \<open>sendError\<close>) although nothing was canceled,
  then with \<open>ok\<close> true (from \<open>finally\<close>).
\<close>

theorem failed_translation_done_twice:
  "job_events 1
     (run rejects_zero
        [Message (Json (ClientPrompt (Some ''an island''))) 0,
         GenSettled 1 (Fulfilled (Error ''Response is not JSON''))] connection) =
   [EvStatus Received ''Prompt received.'' None,
    EvStatus Translating ''Starting translation to schema...'' None,
    EvError ''Response is not JSON'', EvDone False, EvDone True]"
  by (simp add: run_defs connection_def job_events_def)

text \<open>
  C3. A \<open>modify\<close> message starts job 1 and the modification call times out: after the
  error the job sends \<open>done\<close>, and then one more event, a second \<open>done\<close>.
\<close>

theorem timed_out_modification_event_after_done:
  "job_events 1
     (run rejects_zero
        [Message (Json (ClientModify (Some ''more fog'') (Some 4))) 0,
         GenSettled 1 (Rejected ''Operation timed out'')] connection) =
   [EvStatus Received ''Prompt received.'' None,
    EvStatus Modifying ''Starting modification to schema...'' None,
    EvError ''Modification failed: Operation timed out'', EvDone False, EvDone True]"
  by (simp add: run_defs connection_def job_events_def)

section \<open>The validate-repair loop\<close>

lemma vr_attempt_result:
  assumes "vr_attempt check j m n current c = (c1, r)"
  shows "((who, EvResult d fl) \<in> set (sent c1) \<longrightarrow> (who, EvResult d fl) \<in> set (sent c)) \<and>
         (r = Returned (Success d') \<longrightarrow> d' = current \<and> (\<exists>w. check current = Success w))"
  using assms
  by (auto simp: vr_attempt_def loop_exit_def Let_def split: if_splits Result.splits)

lemma vr_repaired_result:
  assumes "vr_repaired j m n current settled c = (c1, r)"
  shows "((who, EvResult d fl) \<in> set (sent c1) \<longrightarrow> (who, EvResult d fl) \<in> set (sent c)) \<and>
         r \<noteq> Returned (Success d')"
  using assms
  by (auto simp: vr_repaired_def loop_exit_def split: if_splits Settled.splits Result.splits)

lemma job_validated_result:
  assumes "(who, EvResult d fl) \<in> set (sent (job_validated j m r c))"
  shows "(who, EvResult d fl) \<in> set (sent c) \<or> r = Success d"
  using assms by (auto simp: job_validated_def split: Result.splits if_splits)

lemma vr_progress_result:
  assumes "(who, EvResult d fl) \<in> set (sent (vr_progress j m live (c1, r)))"
    and "(who, EvResult d fl) \<in> set (sent c1) \<longrightarrow> (who, EvResult d fl) \<in> set (sent c)"
    and "\<And>d'. r = Returned (Success d') \<Longrightarrow> \<exists>w. check d' = Success w"
  shows "(who, EvResult d fl) \<in> set (sent c) \<or> (\<exists>w. check d = Success w)"
  using assms
  by (auto simp: vr_progress_def split: VRStep.splits if_splits dest!: job_validated_result)

lemma job_generated_result:
  assumes "(who, EvResult d fl) \<in> set (sent (job_generated check j m settled c))"
  shows "(who, EvResult d fl) \<in> set (sent c) \<or> (\<exists>w. check d = Success w)"
proof (cases settled)
  case (Rejected msg)
  with assms show ?thesis by (auto simp: job_generated_def split: if_splits)
next
  case (Fulfilled tr)
  show ?thesis
  proof (cases tr)
    case (Error msg)
    with Fulfilled assms show ?thesis by (auto simp: job_generated_def split: if_splits)
  next
    case (Success data)
    obtain c1 r where vr: "vr_attempt check j m 1 data c = (c1, r)" by force
    note facts = vr_attempt_result [OF vr, of who d fl]
    show ?thesis
    proof (cases "isStale (state c) j")
      case True
      with Fulfilled Success assms show ?thesis
        by (auto simp: job_generated_def split: if_splits)
    next
      case False
      show ?thesis
      proof (cases r)
        case (Returned fr)
        with False Fulfilled Success assms vr facts show ?thesis
          by (auto simp: job_generated_def validateAndRepair_def dest!: job_validated_result)
      next
        case (Suspended p)
        with False Fulfilled Success assms vr facts show ?thesis
          by (auto simp: job_generated_def validateAndRepair_def)
      qed
    qed
  qed
qed

lemma on_message_result:
  assumes "(who, EvResult d fl) \<in> set (sent (on_message raw now c))"
  shows "(who, EvResult d fl) \<in> set (sent c)"
proof (cases raw)
  case NotJson
  with assms show ?thesis by (auto simp: on_message_def split: if_splits)
next
  case (Json msg)
  with assms show ?thesis
    by (cases msg)
      (auto simp: on_message_def runJob_def runModificationJob_def setBusy_def Let_def
        split: if_splits option.splits)
qed

lemma step_result:
  assumes "(who, EvResult d fl) \<in> set (sent (step check l c))"
  shows "(who, EvResult d fl) \<in> set (sent c) \<or> (\<exists>w. check d = Success w)"
proof (cases l)
  case (Message raw now)
  with assms on_message_result [of who d fl raw now c] show ?thesis
    by (simp add: step_def)
next
  case Tick
  with assms show ?thesis by (auto simp: step_def on_heartbeat_def split: if_splits)
next
  case Close
  with assms show ?thesis by (simp add: step_def on_close_def)
next
  case SocketError
  with assms show ?thesis by (simp add: step_def on_error_def)
next
  case NotOpen
  with assms show ?thesis by (simp add: step_def)
next
  case (GenSettled k r)
  with assms job_generated_result [of who d fl check k _ r "finish k c"] show ?thesis
    by (auto simp: step_def split: option.splits Task.splits)
next
  case (RepairSettled k r)
  have *: "\<And>m live n current.
      (who, EvResult d fl) \<in> set (sent (vr_progress k m live (vr_repaired k m n current r c)))
      \<Longrightarrow> (who, EvResult d fl) \<in> set (sent c) \<or> (\<exists>w. check d = Success w)"
  proof -
    fix m live n current
    assume a: "(who, EvResult d fl)
      \<in> set (sent (vr_progress k m live (vr_repaired k m n current r c)))"
    obtain c1 r1 where e: "vr_repaired k m n current r c = (c1, r1)" by force
    from vr_repaired_result [OF e, of who d fl] a
    show "(who, EvResult d fl) \<in> set (sent c) \<or> (\<exists>w. check d = Success w)"
      unfolding e by (intro vr_progress_result [of who d fl k m live c1 r1 c check]) auto
  qed
  from RepairSettled assms show ?thesis
    by (auto simp: step_def split: option.splits Task.splits VRPoint.splits dest!: *)
next
  case (SleepDone k)
  have *: "\<And>m live n current.
      (who, EvResult d fl) \<in> set (sent (vr_progress k m live (vr_slept check k m n current c)))
      \<Longrightarrow> (who, EvResult d fl) \<in> set (sent c) \<or> (\<exists>w. check d = Success w)"
  proof -
    fix m live n current
    assume a: "(who, EvResult d fl)
      \<in> set (sent (vr_progress k m live (vr_slept check k m n current c)))"
    obtain c1 r1 where e: "vr_slept check k m n current c = (c1, r1)" by force
    then have e': "vr_attempt check k m (n + 1) current c = (c1, r1)"
      by (simp add: vr_slept_def)
    from vr_attempt_result [OF e', of who d fl] a
    show "(who, EvResult d fl) \<in> set (sent c) \<or> (\<exists>w. check d = Success w)"
      unfolding e by (intro vr_progress_result [of who d fl k m live c1 r1 c check]) auto
  qed
  from SleepDone assms show ?thesis
    by (auto simp: step_def split: option.splits Task.splits VRPoint.splits dest!: *)
next
  case (Deadline k)
  with assms show ?thesis
    by (auto simp: step_def job_deadline_def split: option.splits Task.splits if_splits)
qed

lemma run_result:
  assumes "(who, EvResult d fl) \<in> set (sent (run check ls c))"
  shows "(who, EvResult d fl) \<in> set (sent c) \<or> (\<exists>w. check d = Success w)"
  using assms
proof (induction ls arbitrary: c)
  case Nil
  then show ?case by simp
next
  case (Cons l ls)
  from Cons.IH [of "step check l c"] Cons.prems
  have "(who, EvResult d fl) \<in> set (sent (step check l c)) \<or> (\<exists>w. check d = Success w)"
    by simp
  then show ?case using step_result [of who d fl check l c] by blast
qed

text \<open>
  C5. When the validator accepts the candidate at its first check and the job is
  authoritative, \<open>validateAndRepair\<close> returns at once, before any \<open>await\<close>: it has sent the
  \<open>validating\<close> status of attempt 1 and nothing else, consulted the validator once, made
  no repair call, and its result is the success carrying that very candidate. There is
  no other success exit: whenever the call itself, a later attempt, or the routine
  resumed after the back-off returns a success, it returns the candidate it has just
  seen validated, and the code after a repair call never returns one. Hence, whatever
  happens on a connection, a \<open>result\<close> event that was not on the wire before carries an
  object the validator accepts.
\<close>

theorem valid_candidate_accepted:
  assumes "check json = Success v" and "\<not> isStale (state c) jobId"
  shows "validateAndRepair check jobId json is_modify c =
           (c\<lparr>state := (state c)\<lparr>jobName := Validating\<rparr>,
              sent := sent c @
                (if readyOpen c
                 then [(Job jobId, EvStatus Validating ''Validating schema (attempt 1)'' None)]
                 else []),
              calls := calls c @ [(jobId, ValidateCall json)]\<rparr>,
            Returned (Success json)) \<and>
         (\<forall>x. validateAndRepair check jobId x is_modify c = (c', Returned (Success d)) \<longrightarrow>
            d = x \<and> (\<exists>w. check x = Success w)) \<and>
         (vr_attempt check jobId is_modify attempt current c = (c', Returned (Success d)) \<longrightarrow>
            d = current \<and> (\<exists>w. check current = Success w)) \<and>
         (vr_slept check jobId is_modify attempt current c = (c', Returned (Success d)) \<longrightarrow>
            d = current \<and> (\<exists>w. check current = Success w)) \<and>
         vr_repaired jobId is_modify attempt current settled c \<noteq> (c', Returned (Success d)) \<and>
         ((who, EvResult d flag) \<in> set (sent (run check ls c)) \<longrightarrow>
            (who, EvResult d flag) \<in> set (sent c) \<or> (\<exists>w. check d = Success w))"
proof (intro conjI)
  show "\<forall>x. validateAndRepair check jobId x is_modify c = (c', Returned (Success d)) \<longrightarrow>
            d = x \<and> (\<exists>w. check x = Success w)"
    using vr_attempt_result [of check jobId is_modify 1 _ c c' "Returned (Success d)" _ _ _ d]
    by (auto simp: validateAndRepair_def)
  show "vr_slept check jobId is_modify attempt current c = (c', Returned (Success d)) \<longrightarrow>
            d = current \<and> (\<exists>w. check current = Success w)"
    using vr_attempt_result
      [of check jobId is_modify "attempt + 1" current c c' "Returned (Success d)" _ _ _ d]
    by (auto simp: vr_slept_def)
  show "(who, EvResult d flag) \<in> set (sent (run check ls c)) \<longrightarrow>
            (who, EvResult d flag) \<in> set (sent c) \<or> (\<exists>w. check d = Success w)"
    using run_result [of who d flag check ls c] by blast
  show "validateAndRepair check jobId json is_modify c =
           (c\<lparr>state := (state c)\<lparr>jobName := Validating\<rparr>,
              sent := sent c @
                (if readyOpen c
                 then [(Job jobId, EvStatus Validating ''Validating schema (attempt 1)'' None)]
                 else []),
              calls := calls c @ [(jobId, ValidateCall json)]\<rparr>,
            Returned (Success json))"
    using assms
    by (simp add: validateAndRepair_def vr_attempt_def maxAttempts_def Let_def call_def
        sendStatus_def send_def)
  show "vr_attempt check jobId is_modify attempt current c = (c', Returned (Success d)) \<longrightarrow>
           d = current \<and> (\<exists>w. check current = Success w)"
    by (auto simp add: vr_attempt_def loop_exit_def Let_def split: Result.splits if_splits)
  show "vr_repaired jobId is_modify attempt current settled c \<noteq> (c', Returned (Success d))"
    by (auto simp add: vr_repaired_def loop_exit_def split: Settled.splits Result.splits)
qed

theorem valid_candidate_accepted_witness:
  "rejects_zero 7 = Success 7 \<and> \<not> isStale (state translating_conn) 1 \<and>
   validateAndRepair rejects_zero 1 7 False translating_conn =
     (translating_conn
        \<lparr>state := (state translating_conn)\<lparr>jobName := Validating\<rparr>,
         sent := sent translating_conn @
           [(Job 1, EvStatus Validating ''Validating schema (attempt 1)'' None)],
         calls := calls translating_conn @ [(1, ValidateCall 7)]\<rparr>,
      Returned (Success 7))"
  using valid_candidate_accepted [of rejects_zero 7 7 translating_conn 1 False]
  by (simp add: rejects_zero_def isStale_def translating_conn_def)

text \<open>
  C6, as the code has it. At an attempt within the budget, of an authoritative job on
  an open socket, the first event is a status of stage \<open>validating\<close> whose message
  names the attempt number. When the validator rejects the candidate and attempts are
  left, the attempt ends suspended on the repair call, and the status sent just before
  that call has stage \<open>repair\<close> and a message that ends with the validator's
  diagnostic. Neither status has an \<open>attempt\<close> field.
\<close>

theorem statuses_of_an_attempt:
  assumes "attempt \<le> maxAttempts" and "\<not> isStale (state c) jobId" and "readyOpen c"
  shows "(\<exists>rest. sent (fst (vr_attempt check jobId is_modify attempt current c)) =
            sent c @ (Job jobId, EvStatus Validating
                        (''Validating schema (attempt '' @ number_text attempt @ '')'') None)
                     # rest) \<and>
         (check current = Error diagnostic \<and> attempt < maxAttempts \<longrightarrow>
          vr_attempt check jobId is_modify attempt current c =
            (c\<lparr>state := (state c)\<lparr>jobName := Repair\<rparr>,
               sent := sent c @
                 [(Job jobId, EvStatus Validating
                     (''Validating schema (attempt '' @ number_text attempt @ '')'') None),
                  (Job jobId, EvStatus Repair
                     (''Repairing ('' @ number_text attempt @ ''/3): '' @ diagnostic) None)],
               calls := calls c @
                 [(jobId, ValidateCall current), (jobId, RepairCall current diagnostic)]\<rparr>,
             Suspended (AtRepair attempt current))) \<and>
         stage_literal Validating = ''validating'' \<and> stage_literal Repair = ''repair''"
proof (intro conjI)
  show "\<exists>rest. sent (fst (vr_attempt check jobId is_modify attempt current c)) =
           sent c @ (Job jobId, EvStatus Validating
                       (''Validating schema (attempt '' @ number_text attempt @ '')'') None)
                    # rest"
    using assms by (simp add: vr_attempt_def Let_def split: Result.splits)
  show "check current = Error diagnostic \<and> attempt < maxAttempts \<longrightarrow>
         vr_attempt check jobId is_modify attempt current c =
           (c\<lparr>state := (state c)\<lparr>jobName := Repair\<rparr>,
              sent := sent c @
                [(Job jobId, EvStatus Validating
                    (''Validating schema (attempt '' @ number_text attempt @ '')'') None),
                 (Job jobId, EvStatus Repair
                    (''Repairing ('' @ number_text attempt @ ''/3): '' @ diagnostic) None)],
              calls := calls c @
                [(jobId, ValidateCall current), (jobId, RepairCall current diagnostic)]\<rparr>,
            Suspended (AtRepair attempt current))"
    using assms
    by (simp add: vr_attempt_def Let_def call_def sendStatus_def send_def)
qed simp_all

theorem statuses_of_an_attempt_witness:
  "(2::nat) \<le> maxAttempts \<and> \<not> isStale (state translating_conn) 1 \<and>
   readyOpen translating_conn \<and> rejects_all 5 = Error ''bad'' \<and> 2 < maxAttempts \<and>
   vr_attempt rejects_all 1 False 2 5 translating_conn =
     (translating_conn
        \<lparr>state := (state translating_conn)\<lparr>jobName := Repair\<rparr>,
         sent := sent translating_conn @
           [(Job 1, EvStatus Validating ''Validating schema (attempt 2)'' None),
            (Job 1, EvStatus Repair ''Repairing (2/3): bad'' None)],
         calls := calls translating_conn @ [(1, ValidateCall 5), (1, RepairCall 5 ''bad'')]\<rparr>,
      Suspended (AtRepair 2 5))"
  using statuses_of_an_attempt [of 2 translating_conn 1 rejects_all False 5 "''bad''"]
  by (simp add: rejects_all_def isStale_def maxAttempts_def translating_conn_def)

text \<open>
  The claim as the specification words it names the stage \<open>repairing\<close>: the status sent
  before the repair call carries the stage whose literal is \<open>repair\<close>.
\<close>

theorem repair_stage_counterexample:
  "last (sent (fst (vr_attempt rejects_all 1 False 1 0 translating_conn))) =
     (Job 1, EvStatus Repair ''Repairing (1/3): bad'' None) \<and>
   snd (vr_attempt rejects_all 1 False 1 0 translating_conn) = Suspended (AtRepair 1 0) \<and>
   stage_literal Repair = ''repair'' \<and> stage_literal Repair \<noteq> ''repairing''"
  by (simp add: vr_attempt_def rejects_all_def isStale_def maxAttempts_def Let_def
      translating_conn_def)

section \<open>Cancellation\<close>

text \<open>
  A job that is not suspended anywhere, and whose id has been handed out already, sends
  nothing and calls nothing, whatever happens on the connection afterwards.
\<close>

lemma gen_canceled_view:
  assumes "job_view j c = (s, opn, Some (AwaitGen m), ev, cl)" and "canceled s"
  shows "job_view j (step check (GenSettled j (Fulfilled r)) c) =
           (s\<lparr>busy := False, jobName := Idle\<rparr>, opn, None,
            ev @ (if opn then [EvDone False] else []), cl)"
  using assms
  by (simp add: job_view_def step_def job_generated_def isStale_def)

lemma slept_canceled_view:
  assumes "job_view j c = (s, opn, Some (AwaitVR m (AtSleep n current)), ev, cl)"
    and "canceled s"
  shows "job_view j (step check (SleepDone j) c) =
           (s\<lparr>busy := False, jobName := Idle\<rparr>, opn, None,
            ev @ (if opn then [EvDone False] else []), cl)"
  using assms
  by (simp add: job_view_def step_def vr_slept_def vr_progress_def vr_attempt_def
      job_validated_def loop_exit_def isStale_def)

lemma detached_canceled_view:
  assumes "job_view j c = (s, opn, Some (DetachedVR m (AtSleep n current)), ev, cl)"
    and "canceled s"
  shows "job_view j (step check (SleepDone j) c) = (s, opn, None, ev, cl)"
  using assms
  by (simp add: job_view_def step_def vr_slept_def vr_progress_def vr_attempt_def
      loop_exit_def isStale_def)

lemma vr_attempt_frame:
  assumes "k \<noteq> j" and "vr_attempt check k m n current c = (c1, r)"
  shows "job_events j c1 = job_events j c \<and> job_calls j c1 = job_calls j c \<and>
         pending c1 = pending c \<and> lastJobId (state c1) = lastJobId (state c)"
  using assms
  by (auto simp: vr_attempt_def Let_def split: if_splits Result.splits)

lemma vr_repaired_frame:
  assumes "k \<noteq> j" and "vr_repaired k m n current settled c = (c1, r)"
  shows "job_events j c1 = job_events j c \<and> job_calls j c1 = job_calls j c \<and>
         pending c1 = pending c \<and> lastJobId (state c1) = lastJobId (state c)"
  using assms
  by (auto simp: vr_repaired_def split: Settled.splits Result.splits)

lemma vr_progress_frame:
  assumes "k \<noteq> j" and "job_events j c1 = job_events j c \<and> job_calls j c1 = job_calls j c \<and>
         pending c1 = pending c \<and> lastJobId (state c1) = lastJobId (state c)"
  shows "job_events j (vr_progress k m live (c1, r)) = job_events j c \<and>
         job_calls j (vr_progress k m live (c1, r)) = job_calls j c \<and>
         map_of (pending (vr_progress k m live (c1, r))) j = map_of (pending c) j \<and>
         lastJobId (state (vr_progress k m live (c1, r))) = lastJobId (state c)"
  using assms
  by (auto simp: vr_progress_def job_validated_def split: VRStep.splits Result.splits)

lemma job_generated_frame:
  assumes "k \<noteq> j"
  shows "job_events j (job_generated check k m settled c) = job_events j c \<and>
         job_calls j (job_generated check k m settled c) = job_calls j c \<and>
         map_of (pending (job_generated check k m settled c)) j = map_of (pending c) j \<and>
         lastJobId (state (job_generated check k m settled c)) = lastJobId (state c)"
  using assms
  by (auto simp: job_generated_def job_validated_def validateAndRepair_def
      split: Settled.splits Result.splits prod.splits VRStep.splits
      dest!: vr_attempt_frame [OF assms])

lemma on_message_frame:
  assumes "j \<le> lastJobId (state c)"
  shows "job_events j (on_message raw now c) = job_events j c \<and>
         job_calls j (on_message raw now c) = job_calls j c \<and>
         map_of (pending (on_message raw now c)) j = map_of (pending c) j \<and>
         j \<le> lastJobId (state (on_message raw now c))"
proof (cases raw)
  case NotJson
  then show ?thesis using assms by (simp add: on_message_def)
next
  case (Json msg)
  then show ?thesis using assms
    by (cases msg)
      (auto simp: on_message_def runJob_def runModificationJob_def setBusy_def Let_def
        split: option.splits)
qed

lemma quiet_step:
  assumes "map_of (pending c) j = None" and "j \<le> lastJobId (state c)"
  shows "map_of (pending (step check l c)) j = None \<and>
         j \<le> lastJobId (state (step check l c)) \<and>
         job_events j (step check l c) = job_events j c \<and>
         job_calls j (step check l c) = job_calls j c"
proof (cases l)
  case (Message raw now)
  then show ?thesis using assms on_message_frame [OF assms(2), of raw now]
    by (simp add: step_def)
next
  case Tick
  then show ?thesis using assms by (simp add: step_def on_heartbeat_def)
next
  case Close
  then show ?thesis using assms by (simp add: step_def on_close_def job_events_def job_calls_def)
next
  case SocketError
  then show ?thesis using assms by (simp add: step_def on_error_def)
next
  case NotOpen
  then show ?thesis using assms by (simp add: step_def)
next
  case (GenSettled k r)
  show ?thesis
  proof (cases "k = j")
    case True
    with GenSettled assms show ?thesis by (simp add: step_def)
  next
    case False
    with GenSettled assms job_generated_frame [OF False, of check _ r "finish k c"]
    show ?thesis
      by (auto simp: step_def split: option.splits Task.splits)
  qed
next
  case (RepairSettled k r)
  show ?thesis
  proof (cases "k = j")
    case True
    with RepairSettled assms show ?thesis by (simp add: step_def)
  next
    case False
    have *: "\<And>m live n current.
       job_events j (vr_progress k m live (vr_repaired k m n current r c)) = job_events j c \<and>
       job_calls j (vr_progress k m live (vr_repaired k m n current r c)) = job_calls j c \<and>
       map_of (pending (vr_progress k m live (vr_repaired k m n current r c))) j
         = map_of (pending c) j \<and>
       lastJobId (state (vr_progress k m live (vr_repaired k m n current r c)))
         = lastJobId (state c)"
    proof -
      fix m live n current
      obtain c1 r1 where e: "vr_repaired k m n current r c = (c1, r1)" by force
      show "job_events j (vr_progress k m live (vr_repaired k m n current r c)) = job_events j c \<and>
       job_calls j (vr_progress k m live (vr_repaired k m n current r c)) = job_calls j c \<and>
       map_of (pending (vr_progress k m live (vr_repaired k m n current r c))) j
         = map_of (pending c) j \<and>
       lastJobId (state (vr_progress k m live (vr_repaired k m n current r c)))
         = lastJobId (state c)"
        unfolding e
        by (rule vr_progress_frame [OF False vr_repaired_frame [OF False e]])
    qed
    from RepairSettled assms show ?thesis
      by (auto simp: step_def * split: option.splits Task.splits VRPoint.splits)
  qed
next
  case (SleepDone k)
  show ?thesis
  proof (cases "k = j")
    case True
    with SleepDone assms show ?thesis by (simp add: step_def)
  next
    case False
    have *: "\<And>m live n current.
       job_events j (vr_progress k m live (vr_slept check k m n current c)) = job_events j c \<and>
       job_calls j (vr_progress k m live (vr_slept check k m n current c)) = job_calls j c \<and>
       map_of (pending (vr_progress k m live (vr_slept check k m n current c))) j
         = map_of (pending c) j \<and>
       lastJobId (state (vr_progress k m live (vr_slept check k m n current c)))
         = lastJobId (state c)"
    proof -
      fix m live n current
      obtain c1 r1 where e: "vr_slept check k m n current c = (c1, r1)" by force
      then have e': "vr_attempt check k m (n + 1) current c = (c1, r1)"
        by (simp add: vr_slept_def)
      show "job_events j (vr_progress k m live (vr_slept check k m n current c)) = job_events j c \<and>
       job_calls j (vr_progress k m live (vr_slept check k m n current c)) = job_calls j c \<and>
       map_of (pending (vr_progress k m live (vr_slept check k m n current c))) j
         = map_of (pending c) j \<and>
       lastJobId (state (vr_progress k m live (vr_slept check k m n current c)))
         = lastJobId (state c)"
        unfolding e
        by (rule vr_progress_frame [OF False vr_attempt_frame [OF False e']])
    qed
    from SleepDone assms show ?thesis
      by (auto simp: step_def * split: option.splits Task.splits VRPoint.splits)
  qed
next
  case (Deadline k)
  show ?thesis
  proof (cases "k = j")
    case True
    with Deadline assms show ?thesis by (simp add: step_def)
  next
    case False
    with Deadline assms show ?thesis
      by (auto simp: step_def job_deadline_def split: option.splits Task.splits)
  qed
qed

lemma quiet_run:
  assumes "map_of (pending c) j = None" and "j \<le> lastJobId (state c)"
  shows "job_events j (run check ls c) = job_events j c \<and>
         job_calls j (run check ls c) = job_calls j c"
  using assms
proof (induction ls arbitrary: c)
  case Nil
  then show ?case by simp
next
  case (Cons l ls)
  from quiet_step [OF Cons.prems, of check l] Cons.IH [of "step check l c"]
  show ?case by simp
qed

text \<open>
  C2. Job \<open>j\<close> has been started and \<open>canceled\<close> is set. When the job is resumed at an
  \<open>await\<close> that is followed by a staleness check (the generation call returning, or the
  back-off ending), the check sees the cancellation: from then on, whatever happens on
  the connection, the job sends \<open>done\<close> with \<open>ok\<close> false (if the socket is open) and
  nothing else, and makes no further call. When the job routine is gone already (its
  timer fired) and \<open>validateAndRepair\<close> runs alone, it sends nothing at all.
\<close>

theorem cancel_seen_at_checkpoint:
  assumes "canceled (state c)" and "j \<le> lastJobId (state c)"
  shows "(map_of (pending c) j = Some (AwaitGen m) \<longrightarrow>
            job_events j (run check (GenSettled j (Fulfilled r) # ls) c) =
              job_events j c @ (if readyOpen c then [EvDone False] else []) \<and>
            job_calls j (run check (GenSettled j (Fulfilled r) # ls) c) = job_calls j c) \<and>
         (map_of (pending c) j = Some (AwaitVR m (AtSleep n current)) \<longrightarrow>
            job_events j (run check (SleepDone j # ls) c) =
              job_events j c @ (if readyOpen c then [EvDone False] else []) \<and>
            job_calls j (run check (SleepDone j # ls) c) = job_calls j c) \<and>
         (map_of (pending c) j = Some (DetachedVR m (AtSleep n current)) \<longrightarrow>
            job_events j (run check (SleepDone j # ls) c) = job_events j c \<and>
            job_calls j (run check (SleepDone j # ls) c) = job_calls j c)"
proof (intro conjI impI)
  assume t: "map_of (pending c) j = Some (AwaitGen m)"
  let ?c = "step check (GenSettled j (Fulfilled r)) c"
  have v: "job_view j ?c =
      ((state c)\<lparr>busy := False, jobName := Idle\<rparr>, readyOpen c, None,
       job_events j c @ (if readyOpen c then [EvDone False] else []), job_calls j c)"
    using t assms(1) by (intro gen_canceled_view) (simp_all add: job_view_def)
  then have q: "map_of (pending ?c) j = None" "j \<le> lastJobId (state ?c)"
    using assms(2) by (simp_all add: job_view_def)
  from quiet_run [OF q, of check ls] v
  show "job_events j (run check (GenSettled j (Fulfilled r) # ls) c) =
              job_events j c @ (if readyOpen c then [EvDone False] else [])"
    and "job_calls j (run check (GenSettled j (Fulfilled r) # ls) c) = job_calls j c"
    by (simp_all add: job_view_def)
next
  assume t: "map_of (pending c) j = Some (AwaitVR m (AtSleep n current))"
  let ?c = "step check (SleepDone j) c"
  have v: "job_view j ?c =
      ((state c)\<lparr>busy := False, jobName := Idle\<rparr>, readyOpen c, None,
       job_events j c @ (if readyOpen c then [EvDone False] else []), job_calls j c)"
    using t assms(1) by (intro slept_canceled_view) (simp_all add: job_view_def)
  then have q: "map_of (pending ?c) j = None" "j \<le> lastJobId (state ?c)"
    using assms(2) by (simp_all add: job_view_def)
  from quiet_run [OF q, of check ls] v
  show "job_events j (run check (SleepDone j # ls) c) =
              job_events j c @ (if readyOpen c then [EvDone False] else [])"
    and "job_calls j (run check (SleepDone j # ls) c) = job_calls j c"
    by (simp_all add: job_view_def)
next
  assume t: "map_of (pending c) j = Some (DetachedVR m (AtSleep n current))"
  let ?c = "step check (SleepDone j) c"
  have v: "job_view j ?c = (state c, readyOpen c, None, job_events j c, job_calls j c)"
    using t assms(1) by (intro detached_canceled_view) (simp_all add: job_view_def)
  then have q: "map_of (pending ?c) j = None" "j \<le> lastJobId (state ?c)"
    using assms(2) by (simp_all add: job_view_def)
  from quiet_run [OF q, of check ls] v
  show "job_events j (run check (SleepDone j # ls) c) = job_events j c"
    and "job_calls j (run check (SleepDone j # ls) c) = job_calls j c"
    by (simp_all add: job_view_def)
qed

theorem cancel_seen_at_checkpoint_witness:
  "canceled (state canceled_conn) \<and> 1 \<le> lastJobId (state canceled_conn) \<and>
   map_of (pending canceled_conn) 1 = Some (AwaitGen False) \<and>
   job_events 1
     (run rejects_zero
        (GenSettled 1 (Fulfilled (Success 7))
         # [Message (Json ClientPing) 3, Tick, Message (Json (ClientPrompt (Some ''again''))) 4])
        canceled_conn) =
     [EvStatus Received ''Prompt received.'' None,
      EvStatus Translating ''Starting translation to schema...'' None,
      EvDone False]"
proof -
  have p: "canceled (state canceled_conn)" "1 \<le> lastJobId (state canceled_conn)"
    and t: "map_of (pending canceled_conn) 1 = Some (AwaitGen False)"
    and o: "readyOpen canceled_conn"
    and e: "job_events 1 canceled_conn =
      [EvStatus Received ''Prompt received.'' None,
       EvStatus Translating ''Starting translation to schema...'' None]"
    by (simp_all add: canceled_conn_def job_events_def)
  from cancel_seen_at_checkpoint [OF p, of False rejects_zero "Success 7"
      "[Message (Json ClientPing) 3, Tick, Message (Json (ClientPrompt (Some ''again''))) 4]"]
    t o e
  show ?thesis by (intro conjI p t) simp_all
qed

section \<open>A job seen through the event loop\<close>

text \<open>
  Turns of the event loop that do not continue job \<open>j\<close> make no call for it and send no
  progress event for it; they leave it suspended where it is, except that its timer may
  detach \<open>validateAndRepair\<close> from the job routine.
\<close>

lemma foreign_repaired:
  assumes "k \<noteq> j"
  shows "job_events j (vr_progress k m live (vr_repaired k m n current r c)) = job_events j c \<and>
         job_calls j (vr_progress k m live (vr_repaired k m n current r c)) = job_calls j c \<and>
         map_of (pending (vr_progress k m live (vr_repaired k m n current r c))) j
           = map_of (pending c) j \<and>
         lastJobId (state (vr_progress k m live (vr_repaired k m n current r c)))
           = lastJobId (state c)"
proof -
  obtain c1 r1 where e: "vr_repaired k m n current r c = (c1, r1)" by force
  show ?thesis
    unfolding e by (rule vr_progress_frame [OF assms vr_repaired_frame [OF assms e]])
qed

lemma foreign_slept:
  assumes "k \<noteq> j"
  shows "job_events j (vr_progress k m live (vr_slept check k m n current c)) = job_events j c \<and>
         job_calls j (vr_progress k m live (vr_slept check k m n current c)) = job_calls j c \<and>
         map_of (pending (vr_progress k m live (vr_slept check k m n current c))) j
           = map_of (pending c) j \<and>
         lastJobId (state (vr_progress k m live (vr_slept check k m n current c)))
           = lastJobId (state c)"
proof -
  obtain c1 r1 where e: "vr_slept check k m n current c = (c1, r1)" by force
  then have e': "vr_attempt check k m (n + 1) current c = (c1, r1)"
    by (simp add: vr_slept_def)
  show ?thesis
    unfolding e by (rule vr_progress_frame [OF assms vr_attempt_frame [OF assms e']])
qed

lemma foreign_step:
  assumes "\<not> resumes j l" and "l \<noteq> Deadline j" and "j \<le> lastJobId (state c)"
  shows "job_events j (step check l c) = job_events j c \<and>
         job_calls j (step check l c) = job_calls j c \<and>
         map_of (pending (step check l c)) j = map_of (pending c) j \<and>
         j \<le> lastJobId (state (step check l c))"
proof (cases l)
  case (Message raw now)
  then show ?thesis using on_message_frame [OF assms(3), of raw now]
    by (simp add: step_def)
next
  case Tick
  then show ?thesis using assms by (simp add: step_def on_heartbeat_def)
next
  case Close
  then show ?thesis using assms
    by (simp add: step_def on_close_def job_events_def job_calls_def)
next
  case SocketError
  then show ?thesis using assms by (simp add: step_def on_error_def)
next
  case NotOpen
  then show ?thesis using assms by (simp add: step_def)
next
  case (GenSettled k r)
  with assms have k: "k \<noteq> j" by simp
  from GenSettled assms k job_generated_frame [OF k, of check _ r "finish k c"]
  show ?thesis
    by (auto simp: step_def split: option.splits Task.splits)
next
  case (RepairSettled k r)
  with assms have k: "k \<noteq> j" by simp
  from RepairSettled assms k show ?thesis
    by (auto simp: step_def foreign_repaired [OF k]
        split: option.splits Task.splits VRPoint.splits)
next
  case (SleepDone k)
  with assms have k: "k \<noteq> j" by simp
  from SleepDone assms k show ?thesis
    by (auto simp: step_def foreign_slept [OF k]
        split: option.splits Task.splits VRPoint.splits)
next
  case (Deadline k)
  with assms have k: "k \<noteq> j" by simp
  from Deadline assms k show ?thesis
    by (auto simp: step_def job_deadline_def split: option.splits Task.splits)
qed

lemma deadline_step:
  shows "job_calls j (step check (Deadline j) c) = job_calls j c"
    and "filter is_progress (job_events j (step check (Deadline j) c)) =
           filter is_progress (job_events j c)"
    and "lastJobId (state (step check (Deadline j) c)) = lastJobId (state c)"
    and "map_of (pending c) j = Some (AwaitVR m p) \<or> map_of (pending c) j = Some (DetachedVR m p)
         \<Longrightarrow> map_of (pending (step check (Deadline j) c)) j = Some (AwaitVR m p) \<or>
             map_of (pending (step check (Deadline j) c)) j = Some (DetachedVR m p)"
  by (auto simp: step_def job_deadline_def split: option.splits Task.splits)

lemma other_step:
  assumes "\<not> resumes j l" and "j \<le> lastJobId (state c)"
  shows "job_calls j (step check l c) = job_calls j c"
    and "filter is_progress (job_events j (step check l c)) =
           filter is_progress (job_events j c)"
    and "j \<le> lastJobId (state (step check l c))"
    and "map_of (pending c) j = Some (AwaitVR m p) \<or> map_of (pending c) j = Some (DetachedVR m p)
         \<Longrightarrow> map_of (pending (step check l c)) j = Some (AwaitVR m p) \<or>
             map_of (pending (step check l c)) j = Some (DetachedVR m p)"
proof -
  show "job_calls j (step check l c) = job_calls j c"
    using foreign_step [OF assms(1) _ assms(2), where check = check]
      deadline_step(1) [where j = j and check = check and c = c]
    by (cases "l = Deadline j") simp_all
  show "filter is_progress (job_events j (step check l c)) =
           filter is_progress (job_events j c)"
    using foreign_step [OF assms(1) _ assms(2), where check = check]
      deadline_step(2) [where j = j and check = check and c = c]
    by (cases "l = Deadline j") simp_all
  show "j \<le> lastJobId (state (step check l c))"
    using foreign_step [OF assms(1) _ assms(2), where check = check]
      deadline_step(3) [where j = j and check = check and c = c] assms(2)
    by (cases "l = Deadline j") simp_all
  show "map_of (pending c) j = Some (AwaitVR m p) \<or> map_of (pending c) j = Some (DetachedVR m p)
         \<Longrightarrow> map_of (pending (step check l c)) j = Some (AwaitVR m p) \<or>
             map_of (pending (step check l c)) j = Some (DetachedVR m p)"
    using foreign_step [OF assms(1) _ assms(2), where check = check]
      deadline_step(4) [where j = j and check = check and c = c and m = m and p = p]
    by (cases "l = Deadline j") simp_all
qed

lemma other_run:
  assumes "\<forall>l\<in>set ls. \<not> resumes j l" and "j \<le> lastJobId (state c)"
  shows "job_calls j (run check ls c) = job_calls j c \<and>
         filter is_progress (job_events j (run check ls c)) =
           filter is_progress (job_events j c) \<and>
         j \<le> lastJobId (state (run check ls c)) \<and>
         (map_of (pending c) j = Some (AwaitVR m p) \<or> map_of (pending c) j = Some (DetachedVR m p)
          \<longrightarrow> map_of (pending (run check ls c)) j = Some (AwaitVR m p) \<or>
              map_of (pending (run check ls c)) j = Some (DetachedVR m p))"
  using assms
proof (induction ls arbitrary: c)
  case Nil
  then show ?case by simp
next
  case (Cons l ls)
  from Cons.prems have l: "\<not> resumes j l" and ls: "\<forall>l\<in>set ls. \<not> resumes j l"
    by simp_all
  note s = other_step [OF l Cons.prems(2), where check = check]
  from Cons.IH [OF ls s(3)] s(1,2) s(4) [where m = m and p = p] show ?case by auto
qed

text \<open>What each continuation of the job does when the validator rejects the candidate.\<close>

lemma gen_rejected_step:
  assumes "map_of (pending c) j = Some (AwaitGen m)" and "\<not> isStale (state c) j"
    and "check json = Error e"
  shows "job_calls j (step check (GenSettled j (Fulfilled (Success json))) c) =
           job_calls j c @ [ValidateCall json, RepairCall json e]"
    and "job_events j (step check (GenSettled j (Fulfilled (Success json))) c) =
           job_events j c @
             (if readyOpen c
              then [EvStatus Validating ''Validating schema (attempt 1)'' None,
                    EvStatus Repair (''Repairing (1/3): '' @ e) None]
              else [])"
    and "map_of (pending (step check (GenSettled j (Fulfilled (Success json))) c)) j =
           Some (AwaitVR m (AtRepair 1 json))"
    and "lastJobId (state (step check (GenSettled j (Fulfilled (Success json))) c)) =
           lastJobId (state c)"
  using assms
  by (simp_all add: step_def job_generated_def validateAndRepair_def vr_attempt_def
      maxAttempts_def Let_def)

lemma repaired_step:
  assumes "map_of (pending c) j = Some (AwaitVR m (AtRepair n current)) \<or>
           map_of (pending c) j = Some (DetachedVR m (AtRepair n current))"
  shows "job_calls j (step check (RepairSettled j (Fulfilled (Success data))) c) = job_calls j c"
    and "job_events j (step check (RepairSettled j (Fulfilled (Success data))) c) =
           job_events j c"
    and "map_of (pending (step check (RepairSettled j (Fulfilled (Success data))) c)) j =
           Some (AwaitVR m (AtSleep n data)) \<or>
         map_of (pending (step check (RepairSettled j (Fulfilled (Success data))) c)) j =
           Some (DetachedVR m (AtSleep n data))"
    and "lastJobId (state (step check (RepairSettled j (Fulfilled (Success data))) c)) =
           lastJobId (state c)"
  using assms
  by (auto simp: step_def vr_repaired_def vr_progress_def)

lemma slept_rejected_step:
  assumes "map_of (pending c) j = Some (AwaitVR m (AtSleep n current)) \<or>
           map_of (pending c) j = Some (DetachedVR m (AtSleep n current))"
    and "\<not> isStale (state c) j" and "check current = Error e" and "n + 1 < maxAttempts"
  shows "job_calls j (step check (SleepDone j) c) =
           job_calls j c @ [ValidateCall current, RepairCall current e]"
    and "job_events j (step check (SleepDone j) c) =
           job_events j c @
             (if readyOpen c
              then [EvStatus Validating
                      (''Validating schema (attempt '' @ number_text (n + 1) @ '')'') None,
                    EvStatus Repair
                      (''Repairing ('' @ number_text (n + 1) @ ''/3): '' @ e) None]
              else [])"
    and "map_of (pending (step check (SleepDone j) c)) j =
           Some (AwaitVR m (AtRepair (n + 1) current)) \<or>
         map_of (pending (step check (SleepDone j) c)) j =
           Some (DetachedVR m (AtRepair (n + 1) current))"
    and "lastJobId (state (step check (SleepDone j) c)) = lastJobId (state c)"
  using assms
  by (auto simp: step_def vr_slept_def vr_progress_def vr_attempt_def Let_def)

lemma slept_exhausted_step:
  assumes "map_of (pending c) j = Some (AwaitVR m (AtSleep n current)) \<or>
           map_of (pending c) j = Some (DetachedVR m (AtSleep n current))"
    and "\<not> isStale (state c) j" and "check current = Error e" and "n + 1 = maxAttempts"
  shows "job_calls j (step check (SleepDone j) c) = job_calls j c @ [ValidateCall current]"
    and "filter is_progress (job_events j (step check (SleepDone j) c)) =
           filter is_progress (job_events j c) @
             (if readyOpen c
              then [EvStatus Validating
                      (''Validating schema (attempt '' @ number_text (n + 1) @ '')'') None,
                    EvResultPartial current
                      (''Max repair attempts reached. Last error: '' @ e) (Some m)]
              else [])"
    and "map_of (pending (step check (SleepDone j) c)) j = None"
    and "snd (vr_slept check j m n current c) = Returned loop_exit"
  using assms
  by (auto simp: step_def vr_slept_def vr_progress_def vr_attempt_def job_validated_def
      loop_exit_def Let_def)

text \<open>
  C4, as the code has it. Job \<open>j\<close> awaits its generation call, which returns the
  candidate \<open>json\<close>; the first repair call returns \<open>d1\<close> and the second \<open>d2\<close>; the
  validator rejects \<open>json\<close>, \<open>d1\<close> and \<open>d2\<close>; and the job is not stale at any of its
  three checks (when the candidate arrives and after each back-off). Whatever else
  happens on the connection in between (\<open>t1\<close> to \<open>t4\<close>: client messages, the heartbeat,
  the socket leaving the open state, other routines, the job's own 180 s timer), from
  the moment the candidate arrives the job makes exactly these calls: validate, repair,
  validate, repair, validate (two repair calls, at attempts 1 and 2). Its progress
  events are exactly the \<open>validating\<close> and \<open>repair\<close> statuses of attempts 1 and 2, the
  \<open>validating\<close> status of attempt 3 and one \<open>result_partial\<close> with the last candidate
  and the validator's diagnostic for it, each sent if the socket is open at that
  moment; there is no \<open>result\<close>. The third attempt returns a failure \<open>Result\<close>, and the
  job is no longer suspended anywhere.
\<close>

theorem never_valid_candidate:
  fixes check :: "'a \<Rightarrow> 'a Result" and c :: "'a Conn" and j :: nat
    and json d1 d2 :: 'a and t1 t2 t3 t4 :: "'a Label list"
  defines "g \<equiv> GenSettled j (Fulfilled (Success json))"
    and "r1 \<equiv> RepairSettled j (Fulfilled (Success d1))"
    and "r2 \<equiv> RepairSettled j (Fulfilled (Success d2))"
  defines "b2 \<equiv> run check (g # t1 @ r1 # t2) c"
    and "b4 \<equiv> run check (g # t1 @ r1 # t2 @ SleepDone j # t3 @ r2 # t4) c"
    and "c' \<equiv> run check (g # t1 @ r1 # t2 @ SleepDone j # t3 @ r2 # t4 @ [SleepDone j]) c"
  assumes task: "map_of (pending c) j = Some (AwaitGen m)"
    and rejects: "check json = Error e0" "check d1 = Error e1" "check d2 = Error e2"
    and fresh: "\<not> isStale (state c) j" "\<not> isStale (state b2) j" "\<not> isStale (state b4) j"
    and others: "\<forall>l\<in>set (t1 @ t2 @ t3 @ t4). \<not> resumes j l"
  shows "job_calls j c' = job_calls j c @
           [ValidateCall json, RepairCall json e0, ValidateCall d1, RepairCall d1 e1,
            ValidateCall d2] \<and>
         filter is_progress (job_events j c') = filter is_progress (job_events j c) @
           (if readyOpen c
            then [EvStatus Validating ''Validating schema (attempt 1)'' None,
                  EvStatus Repair (''Repairing (1/3): '' @ e0) None]
            else []) @
           (if readyOpen b2
            then [EvStatus Validating ''Validating schema (attempt 2)'' None,
                  EvStatus Repair (''Repairing (2/3): '' @ e1) None]
            else []) @
           (if readyOpen b4
            then [EvStatus Validating ''Validating schema (attempt 3)'' None,
                  EvResultPartial d2 (''Max repair attempts reached. Last error: '' @ e2)
                    (Some m)]
            else []) \<and>
         snd (vr_slept check j m 2 d2 b4) =
           Returned (Error ''Validation and repair loop exited unexpectedly.'') \<and>
         map_of (pending c') j = None"
proof -
  define a1 where "a1 = step check g c"
  define b1 where "b1 = run check t1 a1"
  define a2 where "a2 = step check r1 b1"
  define a3 where "a3 = step check (SleepDone j) b2"
  define b3 where "b3 = run check t3 a3"
  define a4 where "a4 = step check r2 b3"
  have b2: "b2 = run check t2 a2"
    by (simp add: b2_def run_append a1_def b1_def a2_def)
  have b4: "b4 = run check t4 a4"
    by (simp add: b4_def b2_def run_append a3_def b3_def a4_def)
  have c': "c' = step check (SleepDone j) b4"
    by (simp add: c'_def b4_def run_append)
  have t: "\<forall>l\<in>set t1. \<not> resumes j l" "\<forall>l\<in>set t2. \<not> resumes j l"
    "\<forall>l\<in>set t3. \<not> resumes j l" "\<forall>l\<in>set t4. \<not> resumes j l"
    using others by auto
  let ?k0 = "job_calls j c" and ?f0 = "filter is_progress (job_events j c)"
  let ?k1 = "?k0 @ [ValidateCall json, RepairCall json e0]"
  let ?f1 = "?f0 @ (if readyOpen c
            then [EvStatus Validating ''Validating schema (attempt 1)'' None,
                  EvStatus Repair (''Repairing (1/3): '' @ e0) None]
            else [])"
  let ?k2 = "?k1 @ [ValidateCall d1, RepairCall d1 e1]"
  let ?f2 = "?f1 @ (if readyOpen b2
            then [EvStatus Validating ''Validating schema (attempt 2)'' None,
                  EvStatus Repair (''Repairing (2/3): '' @ e1) None]
            else [])"
  have id0: "j \<le> lastJobId (state c)"
    using fresh(1) by (simp add: isStale_def)
  \<comment> \<open>the candidate arrives: attempt 1\<close>
  note s1 = gen_rejected_step [where check = check and json = json,
      OF task fresh(1) rejects(1), unfolded g_def [symmetric]
      a1_def [symmetric]]
  have a1: "job_calls j a1 = ?k1" "filter is_progress (job_events j a1) = ?f1"
    "map_of (pending a1) j = Some (AwaitVR m (AtRepair 1 json))" "j \<le> lastJobId (state a1)"
    using s1 id0 by simp_all
  note o1 = other_run [OF t(1) a1(4), where check = check and m = m and p = "AtRepair 1 json",
      unfolded b1_def [symmetric]]
  have b1: "job_calls j b1 = ?k1" "filter is_progress (job_events j b1) = ?f1"
    "map_of (pending b1) j = Some (AwaitVR m (AtRepair 1 json)) \<or>
     map_of (pending b1) j = Some (DetachedVR m (AtRepair 1 json))"
    "j \<le> lastJobId (state b1)"
    using o1 a1 by simp_all
  \<comment> \<open>the first repair call returns\<close>
  note s2 = repaired_step [OF b1(3), where check = check and data = d1,
      unfolded r1_def [symmetric] a2_def [symmetric]]
  have a2: "job_calls j a2 = ?k1" "filter is_progress (job_events j a2) = ?f1"
    "map_of (pending a2) j = Some (AwaitVR m (AtSleep 1 d1)) \<or>
     map_of (pending a2) j = Some (DetachedVR m (AtSleep 1 d1))"
    "j \<le> lastJobId (state a2)"
    using s2 b1 by simp_all
  note o2 = other_run [OF t(2) a2(4), where check = check and m = m and p = "AtSleep 1 d1",
      unfolded b2 [symmetric]]
  have b2': "job_calls j b2 = ?k1" "filter is_progress (job_events j b2) = ?f1"
    "map_of (pending b2) j = Some (AwaitVR m (AtSleep 1 d1)) \<or>
     map_of (pending b2) j = Some (DetachedVR m (AtSleep 1 d1))"
    "j \<le> lastJobId (state b2)"
    using o2 a2 by auto
  \<comment> \<open>the back-off ends: attempt 2\<close>
  have two: "1 + 1 < maxAttempts" by (simp add: maxAttempts_def)
  note s3 = slept_rejected_step [where check = check and current = d1,
      OF b2'(3) fresh(2) rejects(2) two,
      unfolded a3_def [symmetric]]
  have a3: "job_calls j a3 = ?k2" "filter is_progress (job_events j a3) = ?f2"
    "map_of (pending a3) j = Some (AwaitVR m (AtRepair 2 d1)) \<or>
     map_of (pending a3) j = Some (DetachedVR m (AtRepair 2 d1))"
    "j \<le> lastJobId (state a3)"
    using s3 b2' by (simp_all add: numeral_2_eq_2)
  note o3 = other_run [OF t(3) a3(4), where check = check and m = m and p = "AtRepair 2 d1",
      unfolded b3_def [symmetric]]
  have b3: "job_calls j b3 = ?k2" "filter is_progress (job_events j b3) = ?f2"
    "map_of (pending b3) j = Some (AwaitVR m (AtRepair 2 d1)) \<or>
     map_of (pending b3) j = Some (DetachedVR m (AtRepair 2 d1))"
    "j \<le> lastJobId (state b3)"
    using o3 a3 by auto
  \<comment> \<open>the second repair call returns\<close>
  note s4 = repaired_step [OF b3(3), where check = check and data = d2,
      unfolded r2_def [symmetric] a4_def [symmetric]]
  have a4: "job_calls j a4 = ?k2" "filter is_progress (job_events j a4) = ?f2"
    "map_of (pending a4) j = Some (AwaitVR m (AtSleep 2 d2)) \<or>
     map_of (pending a4) j = Some (DetachedVR m (AtSleep 2 d2))"
    "j \<le> lastJobId (state a4)"
    using s4 b3 by simp_all
  note o4 = other_run [OF t(4) a4(4), where check = check and m = m and p = "AtSleep 2 d2",
      unfolded b4 [symmetric]]
  have b4': "job_calls j b4 = ?k2" "filter is_progress (job_events j b4) = ?f2"
    "map_of (pending b4) j = Some (AwaitVR m (AtSleep 2 d2)) \<or>
     map_of (pending b4) j = Some (DetachedVR m (AtSleep 2 d2))"
    using o4 a4 by auto
  \<comment> \<open>the back-off ends: attempt 3\<close>
  have three: "2 + 1 = maxAttempts" by (simp add: maxAttempts_def)
  note s5 = slept_exhausted_step [where check = check and current = d2,
      OF b4'(3) fresh(3) rejects(3) three,
      unfolded c' [symmetric]]
  show ?thesis
    using s5 b4'(1,2) by (simp add: loop_exit_def)
qed

theorem never_valid_candidate_witness:
  "map_of (pending translating_conn) 1 = Some (AwaitGen False) \<and>
   rejects_zero 0 = Error ''bad'' \<and> rejects_zero 5 = Success 5 \<and>
   \<not> isStale (state translating_conn) 1 \<and>
   \<not> isStale
       (state (run rejects_zero
          [GenSettled 1 (Fulfilled (Success 0)), Message (Json ClientPing) 7,
           RepairSettled 1 (Fulfilled (Success 0)), Deadline 1] translating_conn)) 1 \<and>
   \<not> isStale
       (state (run rejects_zero
          [GenSettled 1 (Fulfilled (Success 0)), Message (Json ClientPing) 7,
           RepairSettled 1 (Fulfilled (Success 0)), Deadline 1, SleepDone 1, Tick,
           RepairSettled 1 (Fulfilled (Success 0))] translating_conn)) 1 \<and>
   \<not> resumes 1 (Message (Json ClientPing) 7 :: nat Label) \<and>
   \<not> resumes 1 (Deadline 1 :: nat Label) \<and> \<not> resumes 1 (Tick :: nat Label) \<and>
   job_calls 1
     (run rejects_zero
        [GenSettled 1 (Fulfilled (Success 0)), Message (Json ClientPing) 7,
         RepairSettled 1 (Fulfilled (Success 0)), Deadline 1, SleepDone 1, Tick,
         RepairSettled 1 (Fulfilled (Success 0)), SleepDone 1] translating_conn) =
     [TranslateCall ''an island'', ValidateCall 0, RepairCall 0 ''bad'',
      ValidateCall 0, RepairCall 0 ''bad'', ValidateCall 0] \<and>
   filter is_progress
     (job_events 1
        (run rejects_zero
           [GenSettled 1 (Fulfilled (Success 0)), Message (Json ClientPing) 7,
            RepairSettled 1 (Fulfilled (Success 0)), Deadline 1, SleepDone 1, Tick,
            RepairSettled 1 (Fulfilled (Success 0)), SleepDone 1] translating_conn)) =
     [EvStatus Received ''Prompt received.'' None,
      EvStatus Translating ''Starting translation to schema...'' None,
      EvStatus Validating ''Validating schema (attempt 1)'' None,
      EvStatus Repair ''Repairing (1/3): bad'' None,
      EvStatus Validating ''Validating schema (attempt 2)'' None,
      EvStatus Repair ''Repairing (2/3): bad'' None,
      EvStatus Validating ''Validating schema (attempt 3)'' None,
      EvResultPartial 0 ''Max repair attempts reached. Last error: bad'' (Some False)]"
proof -
  let ?g = "GenSettled 1 (Fulfilled (Success 0)) :: nat Label"
  let ?r = "RepairSettled 1 (Fulfilled (Success 0)) :: nat Label"
  let ?t1 = "[Message (Json ClientPing) 7] :: nat Label list"
  let ?t2 = "[Deadline 1] :: nat Label list"
  let ?t3 = "[Tick] :: nat Label list"
  let ?t4 = "[] :: nat Label list"
  let ?b2 = "run rejects_zero (?g # ?t1 @ ?r # ?t2) translating_conn"
  let ?b4 = "run rejects_zero (?g # ?t1 @ ?r # ?t2 @ SleepDone 1 # ?t3 @ ?r # ?t4)
               translating_conn"
  have task: "map_of (pending translating_conn) 1 = Some (AwaitGen False)"
    and f1: "\<not> isStale (state translating_conn) 1"
    and o1: "readyOpen translating_conn"
    and k0: "job_calls 1 translating_conn = [TranslateCall ''an island'']"
    and e0: "job_events 1 translating_conn =
      [EvStatus Received ''Prompt received.'' None,
       EvStatus Translating ''Starting translation to schema...'' None]"
    by (simp_all add: translating_conn_def isStale_def job_calls_def job_events_def)
  have r: "rejects_zero 0 = Error ''bad''" and a: "rejects_zero 5 = Success 5"
    by (simp_all add: rejects_zero_def)
  have f2: "\<not> isStale (state ?b2) 1" and o2: "readyOpen ?b2"
    by (simp_all add: run_defs translating_conn_def rejects_zero_def)
  have f3: "\<not> isStale (state ?b4) 1" and o3: "readyOpen ?b4"
    by (simp_all add: run_defs translating_conn_def rejects_zero_def)
  have others: "\<forall>l\<in>set (?t1 @ ?t2 @ ?t3 @ ?t4). \<not> resumes 1 l"
    by simp
  note inst = never_valid_candidate
    [where check = rejects_zero and json = 0 and ?d1.0 = 0 and ?d2.0 = 0
      and c = translating_conn and j = 1,
      OF task r r r f1 f2 f3 others]
  from inst f2 f3 o1 o2 o3 k0 e0
  show ?thesis by (intro conjI task r a f1) simp_all
qed

text \<open>
  The claim as the specification words it does not ask the repair calls to succeed.
  When the validator rejects every candidate and the first repair call returns a
  failure \<open>Result\<close>, there is one repair call, and the \<open>result_partial\<close> follows the first
  failed validation.
\<close>

theorem failed_repair_counterexample:
  "job_calls 1
     (run rejects_all
        [GenSettled 1 (Fulfilled (Success 0)), RepairSettled 1 (Fulfilled (Error ''no JSON''))]
        translating_conn) =
     [TranslateCall ''an island'', ValidateCall 0, RepairCall 0 ''bad''] \<and>
   job_events 1
     (run rejects_all
        [GenSettled 1 (Fulfilled (Success 0)), RepairSettled 1 (Fulfilled (Error ''no JSON''))]
        translating_conn) =
     [EvStatus Received ''Prompt received.'' None,
      EvStatus Translating ''Starting translation to schema...'' None,
      EvStatus Validating ''Validating schema (attempt 1)'' None,
      EvStatus Repair ''Repairing (1/3): bad'' None,
      EvResultPartial 0 ''Repair 1 failed: no JSON'' (Some False),
      EvDone True]"
  by (simp add: run_defs rejects_all_def translating_conn_def job_events_def job_calls_def)

section \<open>Replies of the language model\<close>

lemma indexOf_absent: "indexOf ch s < 0 \<longleftrightarrow> ch \<notin> set s"
  by (induction s) (auto simp: Let_def)







end
